theory Spec2Isabelle
  imports Complex_Main "HOL-Library.AList" "HOL-Library.Sublist" "HOL-Library.Char_ord"
begin

section \<open>Strings\<close>

text \<open>
  JavaScript strings are modelled as \<^typ>\<open>string\<close>, read as ASCII text: the data set
  (brand, hotel, city and state names) and the alias table are ASCII.  On such text
  \<open>toLowerCase\<close> maps \<open>A\<close>..\<open>Z\<close> to \<open>a\<close>..\<open>z\<close> and leaves every other character alone,
  and the white space of \<open>trim\<close> and of the regular expression class \<open>\s\<close> is tab, line
  feed, vertical tab, form feed, carriage return and space.
\<close>

definition toLowerChar :: "char \<Rightarrow> char" where
  "toLowerChar c =
     (if CHR ''A'' \<le> c \<and> c \<le> CHR ''Z'' then char_of (of_char c + (32::nat)) else c)"

definition toLowerCase :: "string \<Rightarrow> string" where
  "toLowerCase s = map toLowerChar s"

definition isSpace :: "char \<Rightarrow> bool" where
  "isSpace c = (c \<in> set [CHR 0x09, CHR 0x0A, CHR 0x0B, CHR 0x0C, CHR 0x0D, CHR '' ''])"

definition trim :: "string \<Rightarrow> string" where
  "trim s = rev (dropWhile isSpace (rev (dropWhile isSpace s)))"

text \<open>\<open>haystack.includes(needle)\<close>: the needle occurs as a contiguous substring.\<close>

fun str_includes :: "string \<Rightarrow> string \<Rightarrow> bool" where
  "str_includes [] needle = (needle = [])"
| "str_includes (c # cs) needle = (prefix needle (c # cs) \<or> str_includes cs needle)"

text \<open>
  \<open>s.split(/\s+/)\<close>: the pieces between maximal runs of white space, in order; a string
  that starts (or ends) with white space has an empty first (or last) piece, and the
  empty string splits into one empty piece.
\<close>

function splitSpaces :: "string \<Rightarrow> string list" where
  "splitSpaces s =
     (let piece = takeWhile (\<lambda>c. \<not> isSpace c) s;
          rest = dropWhile (\<lambda>c. \<not> isSpace c) s
      in if rest = [] then [piece] else piece # splitSpaces (dropWhile isSpace rest))"
  by pat_completeness auto
termination
proof (relation "measure length")
  show "wf (measure length)" by simp
next
  fix s :: string and piece rest
  assume r: "rest = dropWhile (\<lambda>c. \<not> isSpace c) s" and ne: "rest \<noteq> []"
  from ne obtain c cs where rest: "rest = c # cs" by (cases rest) auto
  from r rest have "isSpace c"
    by (simp add: eq_commute [of "c # cs"] dropWhile_eq_Cons_conv)
  then have "length (dropWhile isSpace rest) \<le> length cs"
    using rest by (simp add: length_dropWhile_le)
  moreover have "length rest \<le> length s"
    unfolding r by (rule length_dropWhile_le)
  ultimately show "(dropWhile isSpace rest, s) \<in> measure length"
    using rest by simp
qed

declare splitSpaces.simps [simp del]

text \<open>Lines 146-154 of the server.\<close>

definition contains :: "string \<Rightarrow> string \<Rightarrow> bool" where
  "contains haystack needle = str_includes (toLowerCase haystack) (toLowerCase needle)"

definition tokensOf :: "string \<Rightarrow> string list" where
  "tokensOf query = filter (\<lambda>t. t \<noteq> []) (splitSpaces (toLowerCase query))"

definition containsAllTokens :: "string \<Rightarrow> string \<Rightarrow> bool" where
  "containsAllTokens text query =
     (let tokens = tokensOf query; lower = toLowerCase text
      in list_all (\<lambda>tok. str_includes lower tok) tokens)"

section \<open>Values, records and errors\<close>

text \<open>
  The value of \<open>JSON.parse\<close>.  Numbers are the finite ones (\<open>NaN\<close> and the infinities
  have no JSON literal), and the program only compares them, so they are modelled as
  reals.  An object is the list of its own properties in insertion order.  \<open>JHost\<close>
  stands for an object that is no JSON value: what \<open>cityAliases[key]\<close> finds on
  \<open>Object.prototype\<close> (see \<open>canonicalCity\<close>).
\<close>

datatype json =
    JNull
  | JBool bool
  | JNum real
  | JStr string
  | JArr "json list"
  | JObj "(string \<times> json) list"
  | JHost

text \<open>A property read gives \<open>None\<close> for \<open>undefined\<close>.  \<open>truthy\<close> is \<open>ToBoolean\<close>.\<close>

fun truthy :: "json option \<Rightarrow> bool" where
  "truthy None = False"
| "truthy (Some JNull) = False"
| "truthy (Some (JBool b)) = b"
| "truthy (Some (JNum x)) = (x \<noteq> 0)"
| "truthy (Some (JStr s)) = (s \<noteq> [])"
| "truthy (Some (JArr xs)) = True"
| "truthy (Some (JObj f)) = True"
| "truthy (Some JHost) = True"

text \<open>
  \<open>ToNumber\<close>, with \<open>None\<close> for \<open>NaN\<close>.  Parsing a string as a number literal (and the
  string an array or object converts to) is not part of this program: it is the
  parameter \<open>tn\<close>.
\<close>

fun ToNumber :: "(json \<Rightarrow> real option) \<Rightarrow> json \<Rightarrow> real option" where
  "ToNumber tn JNull = Some 0"
| "ToNumber tn (JBool b) = Some (if b then 1 else 0)"
| "ToNumber tn (JNum x) = Some x"
| "ToNumber tn v = tn v"

text \<open>\<open>x <= v\<close>, \<open>x >= v\<close> and \<open>v < x\<close> for a number \<open>x\<close>: false when \<open>v\<close> converts to \<open>NaN\<close>.\<close>

definition num_le :: "(json \<Rightarrow> real option) \<Rightarrow> real \<Rightarrow> json \<Rightarrow> bool" where
  "num_le tn x v = (case ToNumber tn v of Some y \<Rightarrow> x \<le> y | None \<Rightarrow> False)"

definition num_ge :: "(json \<Rightarrow> real option) \<Rightarrow> real \<Rightarrow> json \<Rightarrow> bool" where
  "num_ge tn x v = (case ToNumber tn v of Some y \<Rightarrow> x \<ge> y | None \<Rightarrow> False)"

definition lt_num :: "(json \<Rightarrow> real option) \<Rightarrow> json \<Rightarrow> real \<Rightarrow> bool" where
  "lt_num tn v x = (case ToNumber tn v of Some y \<Rightarrow> y < x | None \<Rightarrow> False)"

datatype error =
    Error string
  | ApiFault string
  | SyntaxError
  | TypeError

definition bindE :: "error + 'a \<Rightarrow> ('a \<Rightarrow> error + 'b) \<Rightarrow> error + 'b" where
  "bindE m k = (case m of Inl e \<Rightarrow> Inl e | Inr x \<Rightarrow> k x)"

text \<open>
  Reading, writing and deleting a property of the parsed value.  The server is an ES
  module, hence strict code: reading a property of \<open>null\<close> throws, and so does writing
  one to \<open>null\<close> or to a primitive.  A primitive or an array has none of the properties
  the program names; a property written to an array is never read again (validation
  refuses an array whatever its properties), so the model drops it.
\<close>

fun getProp :: "json \<Rightarrow> string \<Rightarrow> error + json option" where
  "getProp JNull k = Inl TypeError"
| "getProp (JObj f) k = Inr (map_of f k)"
| "getProp v k = Inr None"

fun setProp :: "json \<Rightarrow> string \<Rightarrow> json \<Rightarrow> error + json" where
  "setProp (JObj f) k x = Inr (JObj (AList.update k x f))"
| "setProp (JArr xs) k x = Inr (JArr xs)"
| "setProp JHost k x = Inr JHost"
| "setProp v k x = Inl TypeError"

fun deleteProp :: "json \<Rightarrow> string \<Rightarrow> error + json" where
  "deleteProp JNull k = Inl TypeError"
| "deleteProp (JObj f) k = Inr (JObj (AList.delete k f))"
| "deleteProp v k = Inr v"

text \<open>A normalised row of \<open>data/hotels.csv\<close> (lines 37-58).\<close>

record hotel =
  Brand :: string
  Hotel :: string
  City :: string
  AvgPtValue :: real
  AvgPtsNight :: real
  AvgPts5Nights :: real
  State :: string
  DistanceKmFromAirport :: real

text \<open>Line 61: the lower-case state names of the data set, empty ones left out.\<close>

definition knownStates :: "hotel list \<Rightarrow> string list" where
  "knownStates records = filter (\<lambda>s. s \<noteq> []) (map (\<lambda>r. toLowerCase (State r)) records)"

text \<open>Lines 64-76.\<close>

definition cityAliases :: "(string \<times> string) list" where
  "cityAliases =
     [(''bangalore'', ''bengaluru''),
      (''bengaluru'', ''bengaluru''),
      (''bombay'', ''mumbai''),
      (''delhi'', ''new delhi''),
      (''gurugram'', ''gurgaon''),
      (''gurgaon'', ''gurgaon'')]"

text \<open>
  \<open>cityAliases[key] || name\<close>.  \<open>cityAliases\<close> is an object literal, so a key that is no
  alias is still looked up on \<open>Object.prototype\<close>; of its property names only
  \<open>constructor\<close> and \<open>__proto__\<close> are lower case, and there the lookup finds an object.
\<close>

definition canonicalCity :: "string \<Rightarrow> json" where
  "canonicalCity name =
     (let key = toLowerCase name
      in case map_of cityAliases key of
           Some c \<Rightarrow> JStr c
         | None \<Rightarrow> if key = ''constructor'' \<or> key = ''__proto__'' then JHost else JStr name)"

section \<open>The filter schema\<close>

text \<open>
  Lines 86-100.  \<open>ajv.compile\<close> is given the meaning JSON Schema gives the three keywords
  of \<open>filterSchema\<close>: \<open>type\<close>, \<open>properties\<close> and \<open>additionalProperties\<close>.  Ajv stops at the
  first violation; it looks for an additional property before it checks the listed ones.
\<close>

datatype jtype = TString | TNumber

record schema =
  properties :: "(string \<times> jtype) list"
  additionalProperties :: bool

definition filterSchema :: schema where
  "filterSchema =
     \<lparr> properties =
         [(''city'', TString),
          (''brand'', TString),
          (''state'', TString),
          (''hotel'', TString),
          (''minPtsNight'', TNumber),
          (''maxPtsNight'', TNumber),
          (''maxDistanceKm'', TNumber)],
       additionalProperties = False \<rparr>"

fun hasType :: "jtype \<Rightarrow> json \<Rightarrow> bool" where
  "hasType TString (JStr s) = True"
| "hasType TNumber (JNum x) = True"
| "hasType t v = False"

datatype ajv_error =
    MustBeObject
  | MustNotHaveAdditional string
  | MustBeOfType string jtype

definition ajv_errors :: "schema \<Rightarrow> json \<Rightarrow> ajv_error list" where
  "ajv_errors sch v =
     (case v of
        JObj f \<Rightarrow>
          (case (if additionalProperties sch then None
                 else find (\<lambda>k. k \<notin> set (map fst (properties sch))) (map fst f)) of
             Some k \<Rightarrow> [MustNotHaveAdditional k]
           | None \<Rightarrow>
               (case find (\<lambda>(k, t). case map_of f k of None \<Rightarrow> False | Some x \<Rightarrow> \<not> hasType t x)
                       (properties sch) of
                  Some (k, t) \<Rightarrow> [MustBeOfType k t]
                | None \<Rightarrow> []))
      | _ \<Rightarrow> [MustBeObject])"

definition validateFilter_errors :: "json \<Rightarrow> ajv_error list" where
  "validateFilter_errors v = ajv_errors filterSchema v"

definition validateFilter :: "json \<Rightarrow> bool" where
  "validateFilter v = (validateFilter_errors v = [])"

section \<open>The filter applier\<close>

text \<open>
  Lines 156-179.  \<open>res.filter(r => containsAllTokens(r.City, filter.city))\<close> calls
  \<open>query.toLowerCase()\<close> for the first row, which throws when the value is no string;
  on an empty \<open>res\<close> the callback never runs.
\<close>

definition tokenFilter ::
  "(hotel \<Rightarrow> string) \<Rightarrow> json \<Rightarrow> string \<Rightarrow> hotel list \<Rightarrow> error + hotel list" where
  "tokenFilter field flt key res =
     bindE (getProp flt key) (\<lambda>v.
       if truthy v then
         (case v of
            Some (JStr q) \<Rightarrow> Inr (filter (\<lambda>r. containsAllTokens (field r) q) res)
          | _ \<Rightarrow> if res = [] then Inr [] else Inl TypeError)
       else Inr res)"

definition brandFilter :: "json \<Rightarrow> hotel list \<Rightarrow> error + hotel list" where
  "brandFilter flt res =
     bindE (getProp flt ''brand'') (\<lambda>v.
       if truthy v then
         (case v of
            Some (JStr q) \<Rightarrow>
              (let b = toLowerCase (trim q)
               in if b \<noteq> ''marriott''
                  then Inr (filter (\<lambda>r. contains (Brand r) q \<or> contains (Hotel r) q) res)
                  else Inr res)
          | _ \<Rightarrow> Inl TypeError)
       else Inr res)"

definition maxPtsFilter ::
  "(json \<Rightarrow> real option) \<Rightarrow> json \<Rightarrow> hotel list \<Rightarrow> error + hotel list" where
  "maxPtsFilter tn flt res =
     bindE (getProp flt ''maxPtsNight'') (\<lambda>v.
       case v of
         Some m \<Rightarrow> Inr (filter (\<lambda>r. num_le tn (AvgPtsNight r) m) res)
       | None \<Rightarrow> Inr res)"

definition minPtsFilter ::
  "(json \<Rightarrow> real option) \<Rightarrow> json \<Rightarrow> hotel list \<Rightarrow> error + hotel list" where
  "minPtsFilter tn flt res =
     bindE (getProp flt ''minPtsNight'') (\<lambda>v.
       case v of
         Some m \<Rightarrow> Inr (filter (\<lambda>r. num_ge tn (AvgPtsNight r) m) res)
       | None \<Rightarrow> Inr res)"

definition maxDistanceFilter ::
  "(json \<Rightarrow> real option) \<Rightarrow> json \<Rightarrow> hotel list \<Rightarrow> error + hotel list" where
  "maxDistanceFilter tn flt res =
     bindE (getProp flt ''maxDistanceKm'') (\<lambda>v.
       case v of
         Some m \<Rightarrow>
           Inr (filter (\<lambda>r. DistanceKmFromAirport r \<noteq> 0
                             \<and> num_le tn (DistanceKmFromAirport r) m) res)
       | None \<Rightarrow> Inr res)"

definition applyFilter ::
  "(json \<Rightarrow> real option) \<Rightarrow> hotel list \<Rightarrow> json \<Rightarrow> error + hotel list" where
  "applyFilter tn records flt =
     bindE (tokenFilter City flt ''city'' records) (\<lambda>res.
     bindE (brandFilter flt res) (\<lambda>res.
     bindE (tokenFilter Hotel flt ''hotel'' res) (\<lambda>res.
     bindE (tokenFilter State flt ''state'' res) (\<lambda>res.
     bindE (maxPtsFilter tn flt res) (\<lambda>res.
     bindE (minPtsFilter tn flt res) (\<lambda>res.
     maxDistanceFilter tn flt res))))))"

section \<open>Intent detection\<close>

text \<open>
  The two regular expressions of the request handler, \<open>/\b(nearest|closest)\b/i\<close> and
  \<open>/\b(cheapest|lowest|least expensive|min(?:imum)?)\b/i\<close>.  \<open>test\<close> succeeds when, at
  some position of the text, one of the alternatives matches letter for letter up to
  case, with a word boundary before and after it.  \<open>\b\<close> holds between two neighbours
  (the start and the end of the text counting as no word character) exactly one of
  which is a word character \<open>[A-Za-z0-9_]\<close>.
\<close>

definition isWordChar :: "char \<Rightarrow> bool" where
  "isWordChar c =
     ((CHR ''a'' \<le> c \<and> c \<le> CHR ''z'') \<or> (CHR ''A'' \<le> c \<and> c \<le> CHR ''Z'')
      \<or> (CHR ''0'' \<le> c \<and> c \<le> CHR ''9'') \<or> c = CHR ''_'')"

fun isWord :: "char option \<Rightarrow> bool" where
  "isWord None = False"
| "isWord (Some c) = isWordChar c"

definition wordBoundary :: "char option \<Rightarrow> char option \<Rightarrow> bool" where
  "wordBoundary prev nxt = (isWord prev \<noteq> isWord nxt)"

fun firstChar :: "string \<Rightarrow> char option" where
  "firstChar [] = None"
| "firstChar (c # cs) = Some c"

definition matchAt :: "string list \<Rightarrow> char option \<Rightarrow> string \<Rightarrow> bool" where
  "matchAt alts prev s =
     (wordBoundary prev (firstChar s)
      \<and> list_ex (\<lambda>w. prefix w (toLowerCase s)
                    \<and> wordBoundary (if w = [] then prev else Some (last w))
                                   (firstChar (drop (length w) s))) alts)"

fun searchFrom :: "string list \<Rightarrow> char option \<Rightarrow> string \<Rightarrow> bool" where
  "searchFrom alts prev [] = matchAt alts prev []"
| "searchFrom alts prev (c # cs) =
     (matchAt alts prev (c # cs) \<or> searchFrom alts (Some c) cs)"

definition wantsNearest :: "string \<Rightarrow> bool" where
  "wantsNearest query = searchFrom [''nearest'', ''closest''] None query"

definition wantsCheapest :: "string \<Rightarrow> bool" where
  "wantsCheapest query =
     searchFrom [''cheapest'', ''lowest'', ''least expensive'', ''min'', ''minimum''] None query"

section \<open>The query translator\<close>

text \<open>
  What lines 106-115 leave in \<open>filter\<close>: the request to the model fails
  (\<open>ApiError\<close>, with the message of the rejection), the reply carries no text to trim
  (\<open>NoContent\<close>), the text is no JSON (\<open>NotJson\<close>), or \<open>JSON.parse\<close> returns a value.
\<close>

datatype completion =
    ApiError string
  | NoContent
  | NotJson
  | Parsed json

text \<open>
  The process-wide state a request reads: the rows, whether \<open>openai.apiKey\<close> is set,
  the model as a function of the query, and \<open>ToNumber\<close> on strings, arrays and objects.
\<close>

record env =
  env_records :: "hotel list"
  env_apiKey :: bool
  env_llm :: "string \<Rightarrow> completion"
  env_toNumber :: "json \<Rightarrow> real option"

text \<open>Line 117: \<open>if (filter.city) filter.city = canonicalCity(filter.city)\<close>.\<close>

definition canonicaliseCity :: "json \<Rightarrow> error + json" where
  "canonicaliseCity flt =
     bindE (getProp flt ''city'') (\<lambda>c.
       if truthy c then
         (case c of
            Some (JStr name) \<Rightarrow> setProp flt ''city'' (canonicalCity name)
          | _ \<Rightarrow> Inl TypeError)
       else Inr flt)"

text \<open>Lines 119-126: a state name that the model put into \<open>city\<close>.\<close>

definition correctState :: "string list \<Rightarrow> json \<Rightarrow> error + json" where
  "correctState states flt =
     bindE (getProp flt ''city'') (\<lambda>c.
     bindE (getProp flt ''state'') (\<lambda>s.
       if truthy c \<and> \<not> truthy s then
         (case c of
            Some (JStr name) \<Rightarrow>
              (let maybeState = toLowerCase name
               in if maybeState \<in> set states
                  then bindE (setProp flt ''state'' (JStr name)) (\<lambda>flt'. deleteProp flt' ''city'')
                  else Inr flt)
          | _ \<Rightarrow> Inl TypeError)
       else Inr flt))"

text \<open>Lines 128-136: the first alias, in the order of the table, that the query mentions.\<close>

definition inferCity :: "string \<Rightarrow> json \<Rightarrow> error + json" where
  "inferCity query flt =
     bindE (getProp flt ''city'') (\<lambda>c.
       if \<not> truthy c then
         (case find (\<lambda>(alias, canon). str_includes (toLowerCase query) alias) cityAliases of
            Some (alias, canon) \<Rightarrow> setProp flt ''city'' (JStr canon)
          | None \<Rightarrow> Inr flt)
       else Inr flt)"

text \<open>Lines 138-141: \<open>if (filter[key] !== undefined && filter[key] < 1000) delete filter[key]\<close>.\<close>

definition dropSmall :: "(json \<Rightarrow> real option) \<Rightarrow> string \<Rightarrow> json \<Rightarrow> error + json" where
  "dropSmall tn key flt =
     bindE (getProp flt key) (\<lambda>v.
       case v of
         Some x \<Rightarrow> if lt_num tn x 1000 then deleteProp flt key else Inr flt
       | None \<Rightarrow> Inr flt)"

definition correct :: "env \<Rightarrow> string \<Rightarrow> json \<Rightarrow> error + json" where
  "correct e query flt =
     bindE (canonicaliseCity flt) (\<lambda>flt.
     bindE (correctState (knownStates (env_records e)) flt) (\<lambda>flt.
     bindE (inferCity query flt) (\<lambda>flt.
     bindE (dropSmall (env_toNumber e) ''maxPtsNight'' flt) (\<lambda>flt.
     dropSmall (env_toNumber e) ''minPtsNight'' flt))))"

text \<open>Lines 102-144.\<close>

definition queryToFilter :: "env \<Rightarrow> string \<Rightarrow> error + json" where
  "queryToFilter e query =
     (if \<not> env_apiKey e then Inl (Error ''OPENAI_API_KEY missing'')
      else case env_llm e query of
             ApiError msg \<Rightarrow> Inl (ApiFault msg)
           | NoContent \<Rightarrow> Inl TypeError
           | NotJson \<Rightarrow> Inl SyntaxError
           | Parsed flt \<Rightarrow> correct e query flt)"

section \<open>The request handler\<close>

text \<open>\<open>Math.min(...xs)\<close>; \<open>None\<close> is the \<open>Infinity\<close> it returns for no argument.\<close>

fun mathMin :: "real list \<Rightarrow> real option" where
  "mathMin [] = None"
| "mathMin (x # xs) = Some (fold min xs x)"

text \<open>Lines 203-207.\<close>

definition cheapestStage :: "string \<Rightarrow> hotel list \<Rightarrow> hotel list" where
  "cheapestStage query data =
     (if wantsCheapest query then
        (let m = mathMin (map AvgPtsNight data)
         in filter (\<lambda>r. Some (AvgPtsNight r) = m) data)
      else data)"

text \<open>
  Lines 209-215.  \<open>Array.prototype.sort\<close> is stable, and the comparator
  \<open>a.DistanceKmFromAirport - b.DistanceKmFromAirport\<close> orders by the distance.
\<close>

definition nearestStage :: "string \<Rightarrow> hotel list \<Rightarrow> hotel list" where
  "nearestStage query data =
     (if wantsNearest query then
        take 5 (sort_key DistanceKmFromAirport
                  (filter (\<lambda>r. DistanceKmFromAirport r > 0) data))
      else data)"

text \<open>
  The responses of \<open>POST /search\<close>: \<open>{count, data}\<close>; status 400 with an error text;
  status 422 with an error text and \<open>validateFilter.errors\<close>; status 503 with the
  message of the error that was caught.
\<close>

datatype response =
    Ok200 nat "hotel list"
  | Status400 string
  | Status422 string "ajv_error list"
  | Status503 error

text \<open>Lines 192-217, the body of \<open>try\<close>; \<open>Inl\<close> is what it throws.\<close>

definition tryBlock :: "env \<Rightarrow> string \<Rightarrow> error + response" where
  "tryBlock e query =
     bindE (queryToFilter e query) (\<lambda>flt.
     bindE (if wantsNearest query then deleteProp flt ''maxDistanceKm'' else Inr flt) (\<lambda>flt.
       if \<not> validateFilter flt
       then Inr (Status422 ''invalid filter generated'' (validateFilter_errors flt))
       else
         bindE (applyFilter (env_toNumber e) (env_records e) flt) (\<lambda>data.
           let data = cheapestStage query data;
               data = nearestStage query data
           in Inr (Ok200 (length data) data))))"

text \<open>
  Lines 188-222.  The argument is \<open>req.body.query\<close>, a text when the client sent one
  (\<open>None\<close> when the field is missing); the empty text is falsy.
\<close>

definition search :: "env \<Rightarrow> string option \<Rightarrow> response" where
  "search e q =
     (case q of
        None \<Rightarrow> Status400 ''query field required''
      | Some query \<Rightarrow>
          if query = [] then Status400 ''query field required''
          else (case tryBlock e query of
                  Inl err \<Rightarrow> Status503 err
                | Inr r \<Rightarrow> r))"

section \<open>Row predicates and acceptance conditions\<close>

text \<open>
  What each step of \<open>applyFilter\<close> tests of a row when the key it reads holds a value of
  its declared type, and the conjunction of the seven tests: token-AND matching for
  \<open>city\<close>, \<open>hotel\<close> and \<open>state\<close>, substring matching with the umbrella exception for
  \<open>brand\<close>, inclusive bounds for the numeric keys, a non-zero distance for
  \<open>maxDistanceKm\<close>.  A key that is absent puts no constraint.
\<close>

definition tokensOk :: "json option \<Rightarrow> string \<Rightarrow> bool" where
  "tokensOk v text = (case v of Some (JStr q) \<Rightarrow> containsAllTokens text q | _ \<Rightarrow> True)"

definition brandOk :: "json option \<Rightarrow> hotel \<Rightarrow> bool" where
  "brandOk v r =
     (case v of
        Some (JStr q) \<Rightarrow>
          toLowerCase (trim q) = ''marriott'' \<or> contains (Brand r) q \<or> contains (Hotel r) q
      | _ \<Rightarrow> True)"

definition satisfies :: "(string \<times> json) list \<Rightarrow> hotel \<Rightarrow> bool" where
  "satisfies f r =
     (tokensOk (map_of f ''city'') (City r)
      \<and> brandOk (map_of f ''brand'') r
      \<and> tokensOk (map_of f ''hotel'') (Hotel r)
      \<and> tokensOk (map_of f ''state'') (State r)
      \<and> (case map_of f ''maxPtsNight'' of Some (JNum m) \<Rightarrow> AvgPtsNight r \<le> m | _ \<Rightarrow> True)
      \<and> (case map_of f ''minPtsNight'' of Some (JNum m) \<Rightarrow> AvgPtsNight r \<ge> m | _ \<Rightarrow> True)
      \<and> (case map_of f ''maxDistanceKm'' of
           Some (JNum m) \<Rightarrow> DistanceKmFromAirport r \<noteq> 0 \<and> DistanceKmFromAirport r \<le> m
         | _ \<Rightarrow> True))"

text \<open>
  The acceptance condition as the specification words it: only the seven keys, text
  keys holding strings, numeric keys holding non-negative numbers.
\<close>

definition textKeys :: "string list" where
  "textKeys = [''city'', ''brand'', ''state'', ''hotel'']"

definition numberKeys :: "string list" where
  "numberKeys = [''minPtsNight'', ''maxPtsNight'', ''maxDistanceKm'']"

fun isString :: "json \<Rightarrow> bool" where
  "isString (JStr s) = True"
| "isString v = False"

fun isNumber :: "json \<Rightarrow> bool" where
  "isNumber (JNum x) = True"
| "isNumber v = False"

fun isNonNegativeNumber :: "json \<Rightarrow> bool" where
  "isNonNegativeNumber (JNum x) = (0 \<le> x)"
| "isNonNegativeNumber v = False"

definition spec_accepts :: "(string \<times> json) list \<Rightarrow> bool" where
  "spec_accepts f =
     list_all (\<lambda>(k, v). (k \<in> set textKeys \<and> isString v)
                        \<or> (k \<in> set numberKeys \<and> isNonNegativeNumber v)) f"

text \<open>The own property \<open>k\<close> of a value; \<open>None\<close> when it has none.\<close>

fun ownProp :: "json \<Rightarrow> string \<Rightarrow> json option" where
  "ownProp (JObj f) k = map_of f k"
| "ownProp v k = None"

text \<open>What an error of the validator says about the value it was raised for.\<close>

fun offending :: "json \<Rightarrow> ajv_error \<Rightarrow> bool" where
  "offending flt MustBeObject = (case flt of JObj f \<Rightarrow> False | _ \<Rightarrow> True)"
| "offending flt (MustNotHaveAdditional k) =
     (case flt of
        JObj f \<Rightarrow> k \<in> set (map fst f) \<and> k \<notin> set (textKeys @ numberKeys)
      | _ \<Rightarrow> False)"
| "offending flt (MustBeOfType k t) =
     (case flt of
        JObj f \<Rightarrow>
          (k, t) \<in> set (properties filterSchema)
          \<and> (case map_of f k of Some x \<Rightarrow> \<not> hasType t x | None \<Rightarrow> False)
      | _ \<Rightarrow> False)"

text \<open>A small data set and environment for the concrete instances below.\<close>

definition mkHotel :: "string \<Rightarrow> string \<Rightarrow> string \<Rightarrow> string \<Rightarrow> real \<Rightarrow> real \<Rightarrow> hotel" where
  "mkHotel b n c s p d =
     \<lparr> Brand = b, Hotel = n, City = c, AvgPtValue = 1 / 2, AvgPtsNight = p,
       AvgPts5Nights = 4 * p, State = s, DistanceKmFromAirport = d \<rparr>"

definition demoHotels :: "hotel list" where
  "demoHotels =
     [mkHotel ''Westin'' ''The Westin Gurgaon'' ''Gurgaon'' ''Haryana'' 30000 (25 / 2),
      mkHotel ''JW Marriott'' ''JW Marriott New Delhi'' ''New Delhi'' ''Delhi'' 25000 0,
      mkHotel ''Courtyard'' ''Courtyard Hyderabad'' ''Hyderabad'' ''Telangana'' 25000 30,
      mkHotel ''Sheraton'' ''Sheraton Hyderabad'' ''Hyderabad'' ''Telangana'' 40000 8]"

definition moreHotels :: "hotel list" where
  "moreHotels =
     demoHotels @
     [mkHotel ''Aloft'' ''Aloft Bengaluru'' ''Bengaluru'' ''Karnataka'' 12000 2,
      mkHotel ''Le Meridien'' ''Le Meridien Goa'' ''Calangute'' ''Goa'' 35000 45,
      mkHotel ''Fairfield'' ''Fairfield Pune'' ''Pune'' ''Maharashtra'' 9000 5]"

definition demoEnv :: "json \<Rightarrow> env" where
  "demoEnv reply =
     \<lparr> env_records = demoHotels, env_apiKey = True,
       env_llm = (\<lambda>query. Parsed reply), env_toNumber = (\<lambda>v. None) \<rparr>"

section \<open>Auxiliary facts\<close>

lemma bindE_Inr [simp]: "bindE (Inr x) k = k x"
  by (simp add: bindE_def)

lemma bindE_Inl [simp]: "bindE (Inl e) k = Inl e"
  by (simp add: bindE_def)

lemma find_None_conv: "(find P xs = None) = (\<forall>x\<in>set xs. \<not> P x)"
  by (induction xs) auto

lemma ajv_errors_JObj_Nil:
  "ajv_errors sch (JObj f) = [] \<longleftrightarrow>
     (if additionalProperties sch then None
      else find (\<lambda>k. k \<notin> set (map fst (properties sch))) (map fst f)) = None
     \<and> find (\<lambda>(k, t). case map_of f k of None \<Rightarrow> False | Some x \<Rightarrow> \<not> hasType t x)
          (properties sch) = None"
  unfolding ajv_errors_def
  by (simp split: option.splits prod.splits)

lemma validateFilter_JObj:
  "validateFilter (JObj f) \<longleftrightarrow>
     (\<forall>k \<in> fst ` set f. k \<in> fst ` set (properties filterSchema))
     \<and> (\<forall>(k, t) \<in> set (properties filterSchema). \<forall>x. map_of f k = Some x \<longrightarrow> hasType t x)"
proof -
  have nadd: "\<not> additionalProperties filterSchema"
    by (simp add: filterSchema_def)
  show ?thesis
    unfolding validateFilter_def validateFilter_errors_def ajv_errors_JObj_Nil
    using nadd
    by (auto simp: find_None_conv split: option.splits)
qed

lemma validateFilter_object:
  "validateFilter v \<Longrightarrow> \<exists>f. v = JObj f"
  by (cases v) (simp_all add: validateFilter_def validateFilter_errors_def ajv_errors_def)

lemma validated_text:
  assumes "validateFilter (JObj f)" and "k \<in> {''city'', ''brand'', ''state'', ''hotel''}"
    and "map_of f k = Some x"
  shows "\<exists>q. x = JStr q"
proof -
  from assms(2) have "(k, TString) \<in> set (properties filterSchema)"
    by (auto simp: filterSchema_def)
  with assms(1,3) have "hasType TString x"
    unfolding validateFilter_JObj by blast
  then show ?thesis by (cases x) simp_all
qed

lemma validated_number:
  assumes "validateFilter (JObj f)" and "k \<in> {''minPtsNight'', ''maxPtsNight'', ''maxDistanceKm''}"
    and "map_of f k = Some x"
  shows "\<exists>m. x = JNum m"
proof -
  from assms(2) have "(k, TNumber) \<in> set (properties filterSchema)"
    by (auto simp: filterSchema_def)
  with assms(1,3) have "hasType TNumber x"
    unfolding validateFilter_JObj by blast
  then show ?thesis by (cases x) simp_all
qed

lemma str_includes_Nil [simp]: "str_includes s []"
  by (cases s) simp_all

lemma tokensOf_Nil [simp]: "tokensOf [] = []"
  by (simp add: tokensOf_def toLowerCase_def splitSpaces.simps)

lemma containsAllTokens_Nil [simp]: "containsAllTokens text []"
  by (simp add: containsAllTokens_def)

lemma contains_Nil [simp]: "contains text []"
  by (simp add: contains_def toLowerCase_def)

lemma tokenFilter_text:
  assumes "map_of f key = None \<or> (\<exists>q. map_of f key = Some (JStr q))"
  shows "tokenFilter field (JObj f) key res
           = Inr (filter (\<lambda>r. tokensOk (map_of f key) (field r)) res)"
  using assms by (auto simp: tokenFilter_def tokensOk_def)

lemma brandFilter_text:
  assumes "map_of f ''brand'' = None \<or> (\<exists>q. map_of f ''brand'' = Some (JStr q))"
  shows "brandFilter (JObj f) res = Inr (filter (\<lambda>r. brandOk (map_of f ''brand'') r) res)"
  using assms by (auto simp: brandFilter_def brandOk_def Let_def)

lemma maxPtsFilter_number:
  assumes "map_of f ''maxPtsNight'' = None \<or> (\<exists>m. map_of f ''maxPtsNight'' = Some (JNum m))"
  shows "maxPtsFilter tn (JObj f) res
           = Inr (filter (\<lambda>r. case map_of f ''maxPtsNight'' of
                                  Some (JNum m) \<Rightarrow> AvgPtsNight r \<le> m | _ \<Rightarrow> True) res)"
  using assms by (auto simp: maxPtsFilter_def num_le_def)

lemma minPtsFilter_number:
  assumes "map_of f ''minPtsNight'' = None \<or> (\<exists>m. map_of f ''minPtsNight'' = Some (JNum m))"
  shows "minPtsFilter tn (JObj f) res
           = Inr (filter (\<lambda>r. case map_of f ''minPtsNight'' of
                                  Some (JNum m) \<Rightarrow> AvgPtsNight r \<ge> m | _ \<Rightarrow> True) res)"
  using assms by (auto simp: minPtsFilter_def num_ge_def)

lemma maxDistanceFilter_number:
  assumes "map_of f ''maxDistanceKm'' = None \<or> (\<exists>m. map_of f ''maxDistanceKm'' = Some (JNum m))"
  shows "maxDistanceFilter tn (JObj f) res
           = Inr (filter (\<lambda>r. case map_of f ''maxDistanceKm'' of
                                  Some (JNum m) \<Rightarrow> DistanceKmFromAirport r \<noteq> 0
                                                    \<and> DistanceKmFromAirport r \<le> m
                                | _ \<Rightarrow> True) res)"
  using assms by (auto simp: maxDistanceFilter_def num_le_def)

lemma validated_text_cases:
  assumes "validateFilter (JObj f)" and "k \<in> {''city'', ''brand'', ''state'', ''hotel''}"
  shows "map_of f k = None \<or> (\<exists>q. map_of f k = Some (JStr q))"
  using validated_text [OF assms] by (cases "map_of f k") auto

lemma validated_number_cases:
  assumes "validateFilter (JObj f)" and "k \<in> {''minPtsNight'', ''maxPtsNight'', ''maxDistanceKm''}"
  shows "map_of f k = None \<or> (\<exists>m. map_of f k = Some (JNum m))"
  using validated_number [OF assms] by (cases "map_of f k") auto

lemma applyFilter_validated:
  assumes v: "validateFilter (JObj f)"
  shows "applyFilter tn records (JObj f) = Inr (filter (satisfies f) records)"
proof -
  have c: "map_of f ''city'' = None \<or> (\<exists>q. map_of f ''city'' = Some (JStr q))"
    by (rule validated_text_cases [OF v]) simp
  have b: "map_of f ''brand'' = None \<or> (\<exists>q. map_of f ''brand'' = Some (JStr q))"
    by (rule validated_text_cases [OF v]) simp
  have h: "map_of f ''hotel'' = None \<or> (\<exists>q. map_of f ''hotel'' = Some (JStr q))"
    by (rule validated_text_cases [OF v]) simp
  have s: "map_of f ''state'' = None \<or> (\<exists>q. map_of f ''state'' = Some (JStr q))"
    by (rule validated_text_cases [OF v]) simp
  have mx: "map_of f ''maxPtsNight'' = None \<or> (\<exists>m. map_of f ''maxPtsNight'' = Some (JNum m))"
    by (rule validated_number_cases [OF v]) simp
  have mn: "map_of f ''minPtsNight'' = None \<or> (\<exists>m. map_of f ''minPtsNight'' = Some (JNum m))"
    by (rule validated_number_cases [OF v]) simp
  have d: "map_of f ''maxDistanceKm'' = None \<or> (\<exists>m. map_of f ''maxDistanceKm'' = Some (JNum m))"
    by (rule validated_number_cases [OF v]) simp
  have "applyFilter tn records (JObj f) = Inr (filter (satisfies f) records)"
    unfolding applyFilter_def
    by (simp only: tokenFilter_text [OF c] tokenFilter_text [OF h] tokenFilter_text [OF s]
          brandFilter_text [OF b] maxPtsFilter_number [OF mx] minPtsFilter_number [OF mn]
          maxDistanceFilter_number [OF d] bindE_Inr filter_filter satisfies_def [abs_def] conj_assoc)
  then show ?thesis .
qed

lemma hasType_TString: "hasType TString v = isString v"
  by (cases v) simp_all

lemma hasType_TNumber: "hasType TNumber v = isNumber v"
  by (cases v) simp_all

lemma validateFilter_keys:
  "validateFilter (JObj f) \<longleftrightarrow>
     (\<forall>k v. map_of f k = Some v \<longrightarrow>
        (k \<in> set textKeys \<and> isString v) \<or> (k \<in> set numberKeys \<and> isNumber v))"
  (is "?L \<longleftrightarrow> ?R")
proof
  assume L: ?L
  show ?R
  proof (intro allI impI)
    fix k v assume kv: "map_of f k = Some v"
    then have "k \<in> fst ` set f" using map_of_eq_None_iff [of f k] by auto
    with L have "k \<in> fst ` set (properties filterSchema)"
      unfolding validateFilter_JObj by blast
    then have "k \<in> set textKeys \<or> k \<in> set numberKeys"
      by (auto simp: filterSchema_def textKeys_def numberKeys_def)
    then show "(k \<in> set textKeys \<and> isString v) \<or> (k \<in> set numberKeys \<and> isNumber v)"
    proof
      assume t: "k \<in> set textKeys"
      then have "k \<in> {''city'', ''brand'', ''state'', ''hotel''}" by (simp add: textKeys_def)
      from validated_text [OF L this kv] t show ?thesis by auto
    next
      assume n: "k \<in> set numberKeys"
      then have "k \<in> {''minPtsNight'', ''maxPtsNight'', ''maxDistanceKm''}"
        by (simp add: numberKeys_def)
      from validated_number [OF L this kv] n show ?thesis by auto
    qed
  qed
next
  assume R: ?R
  have keys: "\<forall>k \<in> fst ` set f. k \<in> fst ` set (properties filterSchema)"
  proof
    fix k assume "k \<in> fst ` set f"
    then obtain v where "map_of f k = Some v"
      using map_of_eq_None_iff [of f k] by auto
    with R have "k \<in> set textKeys \<or> k \<in> set numberKeys" by blast
    then show "k \<in> fst ` set (properties filterSchema)"
      by (auto simp: filterSchema_def textKeys_def numberKeys_def)
  qed
  have types: "\<forall>(k, t) \<in> set (properties filterSchema). \<forall>x. map_of f k = Some x \<longrightarrow> hasType t x"
  proof (intro ballI, clarify)
    fix k t x assume kt: "(k, t) \<in> set (properties filterSchema)" and x: "map_of f k = Some x"
    from R x have c: "(k \<in> set textKeys \<and> isString x) \<or> (k \<in> set numberKeys \<and> isNumber x)"
      by blast
    from kt c show "hasType t x"
      by (auto simp: filterSchema_def textKeys_def numberKeys_def hasType_TString hasType_TNumber)
  qed
  from keys types show ?L unfolding validateFilter_JObj by blast
qed

lemma map_of_delete_other: "k' \<noteq> k \<Longrightarrow> map_of (AList.delete k f) k' = map_of f k'"
  by (simp add: AList.delete_conv')

lemma applyFilter_cong:
  assumes "\<forall>k \<in> set (textKeys @ numberKeys). map_of f k = map_of g k"
  shows "applyFilter tn records (JObj f) = applyFilter tn records (JObj g)"
proof -
  from assms have
    "map_of f ''city'' = map_of g ''city''" "map_of f ''brand'' = map_of g ''brand''"
    "map_of f ''hotel'' = map_of g ''hotel''" "map_of f ''state'' = map_of g ''state''"
    "map_of f ''maxPtsNight'' = map_of g ''maxPtsNight''"
    "map_of f ''minPtsNight'' = map_of g ''minPtsNight''"
    "map_of f ''maxDistanceKm'' = map_of g ''maxDistanceKm''"
    by (simp_all add: textKeys_def numberKeys_def)
  then show ?thesis
    by (simp add: applyFilter_def tokenFilter_def brandFilter_def maxPtsFilter_def
          minPtsFilter_def maxDistanceFilter_def)
qed

lemma search_invalid:
  assumes "queryToFilter e query = Inr flt"
    and "(if wantsNearest query then deleteProp flt ''maxDistanceKm'' else Inr flt) = Inr flt'"
    and "query \<noteq> []" and "\<not> validateFilter flt'"
  shows "search e (Some query) = Status422 ''invalid filter generated'' (validateFilter_errors flt')"
  using assms by (simp add: search_def tryBlock_def)

lemma map_of_delete_same: "map_of (AList.delete k f) k = None"
  by (simp add: AList.delete_conv')

lemma validateFilter_delete:
  assumes "validateFilter (JObj f)"
  shows "validateFilter (JObj (AList.delete k f))"
  unfolding validateFilter_keys
proof (intro allI impI)
  fix k' v assume "map_of (AList.delete k f) k' = Some v"
  then have "map_of f k' = Some v"
    by (cases "k' = k") (simp_all add: AList.delete_conv')
  with assms show "(k' \<in> set textKeys \<and> isString v) \<or> (k' \<in> set numberKeys \<and> isNumber v)"
    unfolding validateFilter_keys by blast
qed


lemma str_includes_sublist: "str_includes hay needle \<longleftrightarrow> sublist needle hay"
  by (induction hay) (simp_all add: sublist_Cons_right)

lemma contains_iff:
  "contains text q \<longleftrightarrow> (\<exists>pre post. toLowerCase text = pre @ toLowerCase q @ post)"
  by (simp add: contains_def str_includes_sublist sublist_def)

lemma satisfies_without_brand:
  assumes "map_of f ''brand'' = Some (JStr b)"
  shows "satisfies f r \<longleftrightarrow>
           satisfies (AList.delete ''brand'' f) r
           \<and> (toLowerCase (trim b) = ''marriott'' \<or> contains (Brand r) b \<or> contains (Hotel r) b)"
  using assms by (auto simp: satisfies_def brandOk_def map_of_delete_other map_of_delete_same)

lemma isSpace_toLowerChar: "isSpace c \<Longrightarrow> toLowerChar c = c"
  by (auto simp: isSpace_def toLowerChar_def)

lemma tokensOf_spaces:
  assumes "\<forall>c \<in> set v. isSpace c"
  shows "tokensOf v = []"
proof -
  have low: "toLowerCase v = v"
    using assms by (simp add: toLowerCase_def isSpace_toLowerChar map_idI)
  have t: "takeWhile (\<lambda>c. \<not> isSpace c) v = []"
    using assms by (cases v) simp_all
  have d: "dropWhile (\<lambda>c. \<not> isSpace c) v = v"
    using assms by (cases v) simp_all
  have dd: "dropWhile isSpace v = []"
    using assms by simp
  have e: "splitSpaces [] = [[]]"
    by (simp add: splitSpaces.simps)
  have "splitSpaces v = [[]] \<or> splitSpaces v = [[], []]"
    by (subst splitSpaces.simps) (simp add: t d dd e Let_def)
  then show ?thesis
    by (auto simp: tokensOf_def low)
qed

lemma tokenFilter_blank:
  assumes "map_of f key = Some (JStr v)" and "tokensOf v = []"
  shows "tokenFilter field (JObj f) key res = Inr res"
  using assms by (simp add: tokenFilter_def containsAllTokens_def)

lemma tokenFilter_absent:
  assumes "map_of f key = None"
  shows "tokenFilter field (JObj f) key res = Inr res"
  using assms by (simp add: tokenFilter_def)

lemma tokenFilter_delete_other:
  "key \<noteq> k \<Longrightarrow> tokenFilter field (JObj (AList.delete k f)) key res
                    = tokenFilter field (JObj f) key res"
  by (simp add: tokenFilter_def map_of_delete_other)

lemma other_filters_delete_text:
  assumes "k \<in> {''city'', ''hotel'', ''state''}"
  shows "brandFilter (JObj (AList.delete k f)) res = brandFilter (JObj f) res"
    and "maxPtsFilter tn (JObj (AList.delete k f)) res = maxPtsFilter tn (JObj f) res"
    and "minPtsFilter tn (JObj (AList.delete k f)) res = minPtsFilter tn (JObj f) res"
    and "maxDistanceFilter tn (JObj (AList.delete k f)) res = maxDistanceFilter tn (JObj f) res"
  using assms
  by (auto simp: brandFilter_def maxPtsFilter_def minPtsFilter_def maxDistanceFilter_def
        map_of_delete_other)

lemma mathMin_map:
  "data \<noteq> [] \<Longrightarrow> mathMin (map p data) = Some (Min (p ` set data))"
  by (cases data) (simp_all add: Min.set_eq_fold [symmetric])

lemma filter_minimum:
  "filter (\<lambda>r. Some (p r) = mathMin (map p data)) data
     = filter (\<lambda>r. \<forall>r' \<in> set data. (p r :: real) \<le> p r') data"
proof (cases "data = []")
  case True
  then show ?thesis by simp
next
  case False
  show ?thesis
  proof (rule filter_cong [OF refl])
    fix r assume r: "r \<in> set data"
    have fin: "finite (p ` set data)" by simp
    have ne: "p ` set data \<noteq> {}" using False by simp
    have "p r = Min (p ` set data) \<longleftrightarrow> (\<forall>r' \<in> set data. p r \<le> p r')"
    proof
      assume "p r = Min (p ` set data)"
      then show "\<forall>r' \<in> set data. p r \<le> p r'" using fin by simp
    next
      assume "\<forall>r' \<in> set data. p r \<le> p r'"
      then show "p r = Min (p ` set data)"
        using r fin by (intro Min_eqI [symmetric]) auto
    qed
    then show "(Some (p r) = mathMin (map p data)) \<longleftrightarrow> (\<forall>r' \<in> set data. p r \<le> p r')"
      by (simp add: mathMin_map [OF False])
  qed
qed

lemma cheapestStage_minimum:
  "wantsCheapest query \<Longrightarrow>
     cheapestStage query data
       = filter (\<lambda>r. \<forall>r' \<in> set data. AvgPtsNight r \<le> AvgPtsNight r') data"
  by (simp add: cheapestStage_def filter_minimum)

lemma searchFrom_Nil: "\<forall>w \<in> set alts. w \<noteq> [] \<Longrightarrow> \<not> searchFrom alts None []"
  by (auto simp: matchAt_def wordBoundary_def)

lemma wantsCheapest_nonempty: "wantsCheapest query \<Longrightarrow> query \<noteq> []"
  by (auto simp: wantsCheapest_def matchAt_def wordBoundary_def)

lemma wantsNearest_nonempty: "wantsNearest query \<Longrightarrow> query \<noteq> []"
  by (auto simp: wantsNearest_def matchAt_def wordBoundary_def)

lemma search_valid:
  assumes "query \<noteq> []" and "queryToFilter e query = Inr flt0"
    and "(if wantsNearest query then deleteProp flt0 ''maxDistanceKm'' else Inr flt0) = Inr flt"
    and "validateFilter flt"
    and "applyFilter (env_toNumber e) (env_records e) flt = Inr res"
  shows "search e (Some query)
           = Ok200 (length (nearestStage query (cheapestStage query res)))
               (nearestStage query (cheapestStage query res))"
  using assms by (simp add: search_def tryBlock_def Let_def)

lemma applyFilter_total:
  assumes "validateFilter flt"
  shows "\<exists>f. flt = JObj f \<and> applyFilter tn records flt = Inr (filter (satisfies f) records)"
proof -
  from validateFilter_object [OF assms] obtain f where f: "flt = JObj f" by blast
  with assms applyFilter_validated [of f tn records] show ?thesis by simp
qed

lemma getProp_ownProp: "flt \<noteq> JNull \<Longrightarrow> getProp flt k = Inr (ownProp flt k)"
  by (cases flt) simp_all

lemma getProp_Inr: "getProp flt k = Inr x \<Longrightarrow> flt \<noteq> JNull \<and> x = ownProp flt k"
  by (cases flt) auto

lemma setProp_Inr:
  "setProp flt k x = Inr flt' \<Longrightarrow>
     flt' \<noteq> JNull \<and> (\<forall>k'. k' \<noteq> k \<longrightarrow> ownProp flt' k' = ownProp flt k')"
  by (cases flt) (auto simp: AList.update_conv')

lemma deleteProp_Inr:
  "deleteProp flt k = Inr flt' \<Longrightarrow>
     flt' \<noteq> JNull \<and> ownProp flt' k = None
     \<and> (\<forall>k'. k' \<noteq> k \<longrightarrow> ownProp flt' k' = ownProp flt k')"
  by (cases flt) (auto simp: AList.delete_conv')

lemma deleteProp_total: "flt \<noteq> JNull \<Longrightarrow> \<exists>flt'. deleteProp flt k = Inr flt'"
  by (cases flt) simp_all

lemma bindE_eq_Inr: "bindE m k = Inr y \<longleftrightarrow> (\<exists>x. m = Inr x \<and> k x = Inr y)"
  by (cases m) simp_all

lemma canonicaliseCity_Inr:
  assumes "canonicaliseCity flt = Inr flt'"
  shows "flt' \<noteq> JNull \<and> (\<forall>k. k \<noteq> ''city'' \<longrightarrow> ownProp flt' k = ownProp flt k)"
  using assms unfolding canonicaliseCity_def bindE_eq_Inr
  by (auto dest!: getProp_Inr setProp_Inr split: if_splits option.splits json.splits)

lemma correctState_Inr:
  assumes "correctState states flt = Inr flt'"
  shows "flt' \<noteq> JNull
         \<and> (\<forall>k. k \<noteq> ''city'' \<and> k \<noteq> ''state'' \<longrightarrow> ownProp flt' k = ownProp flt k)"
  using assms unfolding correctState_def bindE_eq_Inr Let_def
  by (auto simp: bindE_eq_Inr dest!: getProp_Inr setProp_Inr deleteProp_Inr
        split: if_splits option.splits json.splits)

lemma inferCity_Inr:
  assumes "inferCity query flt = Inr flt'"
  shows "flt' \<noteq> JNull \<and> (\<forall>k. k \<noteq> ''city'' \<longrightarrow> ownProp flt' k = ownProp flt k)"
  using assms unfolding inferCity_def bindE_eq_Inr
  by (auto dest!: getProp_Inr setProp_Inr split: if_splits option.splits prod.splits)

lemma dropSmall_Inr:
  assumes "dropSmall tn key flt = Inr flt'"
  shows "flt' \<noteq> JNull
         \<and> (\<forall>k. k \<noteq> key \<longrightarrow> ownProp flt' k = ownProp flt k)
         \<and> ownProp flt' key
             = (case ownProp flt key of
                  Some x \<Rightarrow> if lt_num tn x 1000 then None else Some x
                | None \<Rightarrow> None)"
  using assms unfolding dropSmall_def bindE_eq_Inr
  by (auto dest!: getProp_Inr deleteProp_Inr split: if_splits option.splits)

lemma correct_Inr:
  assumes "correct e query raw = Inr flt"
  shows "flt \<noteq> JNull"
    and "key = ''maxPtsNight'' \<or> key = ''minPtsNight'' \<Longrightarrow>
           ownProp flt key
             = (case ownProp raw key of
                  Some x \<Rightarrow> if lt_num (env_toNumber e) x 1000 then None else Some x
                | None \<Rightarrow> None)"
proof -
  from assms obtain a b c d where
    a: "canonicaliseCity raw = Inr a" and
    b: "correctState (knownStates (env_records e)) a = Inr b" and
    c: "inferCity query b = Inr c" and
    d: "dropSmall (env_toNumber e) ''maxPtsNight'' c = Inr d" and
    f: "dropSmall (env_toNumber e) ''minPtsNight'' d = Inr flt"
    unfolding correct_def bindE_eq_Inr by blast
  note A = canonicaliseCity_Inr [OF a] and B = correctState_Inr [OF b]
    and C = inferCity_Inr [OF c] and D = dropSmall_Inr [OF d] and F = dropSmall_Inr [OF f]
  from F show "flt \<noteq> JNull" by blast
  assume "key = ''maxPtsNight'' \<or> key = ''minPtsNight''"
  then show "ownProp flt key
             = (case ownProp raw key of
                  Some x \<Rightarrow> if lt_num (env_toNumber e) x 1000 then None else Some x
                | None \<Rightarrow> None)"
  proof
    assume k: "key = ''maxPtsNight''"
    have "ownProp c key = ownProp raw key" using A B C by (simp add: k)
    moreover have "ownProp flt key = ownProp d key" using F by (simp add: k)
    ultimately show ?thesis using D by (simp add: k)
  next
    assume k: "key = ''minPtsNight''"
    have "ownProp d key = ownProp raw key" using A B C D by (simp add: k)
    then show ?thesis using F by (simp add: k)
  qed
qed

lemma queryToFilter_Inr:
  assumes "queryToFilter e query = Inr flt"
  shows "env_apiKey e \<and> (\<exists>raw. env_llm e query = Parsed raw \<and> correct e query raw = Inr flt)"
  using assms by (auto simp: queryToFilter_def split: if_splits completion.splits)

lemma queryToFilter_not_null: "queryToFilter e query = Inr flt \<Longrightarrow> flt \<noteq> JNull"
  using queryToFilter_Inr correct_Inr(1) by blast

lemma nearestStage_near:
  assumes "wantsNearest query"
  shows "nearestStage query data
           = take 5 (sort_key DistanceKmFromAirport
                       (filter (\<lambda>r. 0 < DistanceKmFromAirport r) data))"
    and "length (nearestStage query data) \<le> 5"
    and "\<forall>r \<in> set (nearestStage query data). r \<in> set data \<and> 0 < DistanceKmFromAirport r"
    and "sorted (map DistanceKmFromAirport (nearestStage query data))"
proof -
  let ?s = "sort_key DistanceKmFromAirport (filter (\<lambda>r. 0 < DistanceKmFromAirport r) data)"
  show n: "nearestStage query data = take 5 ?s"
    using assms by (simp add: nearestStage_def)
  show "length (nearestStage query data) \<le> 5"
    by (simp add: n)
  show "\<forall>r \<in> set (nearestStage query data). r \<in> set data \<and> 0 < DistanceKmFromAirport r"
  proof
    fix r assume "r \<in> set (nearestStage query data)"
    then have "r \<in> set ?s" unfolding n by (rule in_set_takeD)
    then show "r \<in> set data \<and> 0 < DistanceKmFromAirport r" by simp
  qed
  have "sorted (map DistanceKmFromAirport ?s)"
    by (rule sorted_sort_key)
  then have "sorted (take 5 (map DistanceKmFromAirport ?s))"
    by (rule sorted_wrt_take)
  then show "sorted (map DistanceKmFromAirport (nearestStage query data))"
    by (simp add: n take_map)
qed

lemma set_nearestStage: "set (nearestStage query data) \<subseteq> set data"
  by (auto simp: nearestStage_def dest: in_set_takeD)

lemma set_cheapestStage: "set (cheapestStage query data) \<subseteq> set data"
  by (auto simp: cheapestStage_def)

lemma correctState_moves:
  assumes city: "map_of f ''city'' = Some (JStr name)" and ne: "name \<noteq> []"
    and state: "\<not> truthy (map_of f ''state'')"
    and known: "toLowerCase name \<in> set states"
  shows "correctState states (JObj f)
           = Inr (JObj (AList.delete ''city'' (AList.update ''state'' (JStr name) f)))"
  using assms by (simp add: correctState_def)

lemma haryana_canonical: "canonicaliseCity (JObj [(''city'', JStr ''Haryana'')])
                            = Inr (JObj [(''city'', JStr ''Haryana'')])"
  by code_simp

lemma haryana_step:
  assumes "''haryana'' \<in> set ks"
  shows "bindE (canonicaliseCity (JObj [(''city'', JStr ''Haryana'')])) (correctState ks)
           = Inr (JObj [(''state'', JStr ''Haryana'')])"
proof -
  have l: "toLowerCase ''Haryana'' = ''haryana''" by code_simp
  have "correctState ks (JObj [(''city'', JStr ''Haryana'')])
          = Inr (JObj (AList.delete ''city''
                   (AList.update ''state'' (JStr ''Haryana'') [(''city'', JStr ''Haryana'')])))"
    by (rule correctState_moves) (simp_all add: l assms)
  then show ?thesis
    by (simp add: haryana_canonical)
qed

lemma dropSmall_absent:
  "map_of f key = None \<Longrightarrow> dropSmall tn key (JObj f) = Inr (JObj f)"
  by (simp add: dropSmall_def)

lemma haryana_translated:
  assumes key: "env_apiKey e"
    and reply: "env_llm e query = Parsed (JObj [(''city'', JStr ''Haryana'')])"
    and known: "''haryana'' \<in> set (knownStates (env_records e))"
  shows "queryToFilter e query
           = Inr (JObj (case find (\<lambda>(alias, canon). str_includes (toLowerCase query) alias)
                               cityAliases of
                          None \<Rightarrow> [(''state'', JStr ''Haryana'')]
                        | Some (alias, canon) \<Rightarrow>
                            [(''state'', JStr ''Haryana''), (''city'', JStr canon)]))"
proof -
  let ?s = "[(''state'', JStr ''Haryana'')]"
  have i: "inferCity query (JObj ?s)
             = Inr (JObj (case find (\<lambda>(alias, canon). str_includes (toLowerCase query) alias)
                               cityAliases of
                          None \<Rightarrow> ?s
                        | Some (alias, canon) \<Rightarrow> ?s @ [(''city'', JStr canon)]))"
    by (simp add: inferCity_def split: option.splits)
  have d: "\<And>g key. g = ?s \<or> (\<exists>c. g = ?s @ [(''city'', JStr c)]) \<Longrightarrow>
             key = ''maxPtsNight'' \<or> key = ''minPtsNight'' \<Longrightarrow>
             dropSmall (env_toNumber e) key (JObj g) = Inr (JObj g)"
    by (rule dropSmall_absent) auto
  have "correct e query (JObj [(''city'', JStr ''Haryana'')])
          = Inr (JObj (case find (\<lambda>(alias, canon). str_includes (toLowerCase query) alias)
                               cityAliases of
                          None \<Rightarrow> ?s
                        | Some (alias, canon) \<Rightarrow> ?s @ [(''city'', JStr canon)]))"
    unfolding correct_def
    using haryana_step [OF known]
    by (auto simp: bindE_eq_Inr haryana_canonical i d split: option.splits)
  then show ?thesis
    using key reply by (simp add: queryToFilter_def split: option.splits prod.splits)
qed

lemma find_SomeD: "find P xs = Some x \<Longrightarrow> x \<in> set xs \<and> P x"
  by (induction xs) (auto split: if_splits)

lemma validateFilter_errors_offending:
  "list_all (offending flt) (validateFilter_errors flt)"
proof (cases flt)
  case (JObj f)
  have keys: "\<And>k. k \<in> fst ` set (properties filterSchema)
                     \<longleftrightarrow> k \<in> set textKeys \<or> k \<in> set numberKeys"
    by (auto simp: filterSchema_def textKeys_def numberKeys_def)
  have nadd: "\<not> additionalProperties filterSchema"
    by (simp add: filterSchema_def)
  show ?thesis
    unfolding validateFilter_errors_def ajv_errors_def JObj
    using nadd
    by (auto simp: keys split: option.splits dest!: find_SomeD)
qed (simp_all add: validateFilter_errors_def ajv_errors_def)

lemma search_missing:
  "q = None \<or> q = Some [] \<Longrightarrow> search e q = Status400 ''query field required''"
  by (auto simp: search_def)

lemma search_fault:
  "query \<noteq> [] \<Longrightarrow> queryToFilter e query = Inl err \<Longrightarrow> search e (Some query) = Status503 err"
  by (simp add: search_def tryBlock_def)

lemma strip_total:
  assumes "queryToFilter e query = Inr flt0"
  shows "\<exists>flt. (if wantsNearest query then deleteProp flt0 ''maxDistanceKm'' else Inr flt0) = Inr flt"
  using deleteProp_total [OF queryToFilter_not_null [OF assms]] by auto

lemma set_applyFilter:
  assumes "validateFilter flt" and "applyFilter tn records flt = Inr res"
  shows "set res \<subseteq> set records"
  using applyFilter_total [OF assms(1), of tn records] assms(2) by auto

lemma marriott_nonempty: "toLowerCase (trim b) = ''marriott'' \<Longrightarrow> b \<noteq> []"
  by (auto simp: trim_def toLowerCase_def)

lemma brandFilter_umbrella:
  assumes "map_of f ''brand'' = Some (JStr b)" and "toLowerCase (trim b) = ''marriott''"
  shows "brandFilter (JObj f) res = Inr res"
  using assms marriott_nonempty [OF assms(2)] by (simp add: brandFilter_def)

lemma brandFilter_absent:
  "map_of f ''brand'' = None \<Longrightarrow> brandFilter (JObj f) res = Inr res"
  by (simp add: brandFilter_def)

lemma other_filters_delete_brand:
  "maxPtsFilter tn (JObj (AList.delete ''brand'' f)) res = maxPtsFilter tn (JObj f) res"
  "minPtsFilter tn (JObj (AList.delete ''brand'' f)) res = minPtsFilter tn (JObj f) res"
  "maxDistanceFilter tn (JObj (AList.delete ''brand'' f)) res = maxDistanceFilter tn (JObj f) res"
  by (simp_all add: maxPtsFilter_def minPtsFilter_def maxDistanceFilter_def map_of_delete_other)

lemma applyFilter_umbrella:
  assumes b: "map_of f ''brand'' = Some (JStr b)" and u: "toLowerCase (trim b) = ''marriott''"
  shows "applyFilter tn records (JObj f) = applyFilter tn records (JObj (AList.delete ''brand'' f))"
  unfolding applyFilter_def other_filters_delete_brand
  by (simp add: brandFilter_umbrella [OF b u] brandFilter_absent [OF map_of_delete_same]
        tokenFilter_delete_other)

section \<open>The schema validator (C1)\<close>

text \<open>
  C1, as the code has it.  The validator accepts an object exactly when each of its
  keys is one of the seven, a text key (\<open>city\<close>, \<open>brand\<close>, \<open>state\<close>, \<open>hotel\<close>) holding a
  string and a numeric key (\<open>minPtsNight\<close>, \<open>maxPtsNight\<close>, \<open>maxDistanceKm\<close>) holding a
  number of either sign; whatever it accepts is an object.  When the filter that
  reaches the validator is refused, the request ends with status 422 and the
  validator's errors, which are not empty, and no row is selected.  Two objects that
  agree on the seven keys select the same rows: no other key influences the selection.
\<close>

theorem validateFilter_whitelist:
  "(validateFilter (JObj f) \<longleftrightarrow>
      (\<forall>k v. map_of f k = Some v \<longrightarrow>
         (k \<in> set textKeys \<and> isString v) \<or> (k \<in> set numberKeys \<and> isNumber v)))
   \<and> (validateFilter flt \<longrightarrow> (\<exists>h. flt = JObj h))
   \<and> (queryToFilter e query = Inr flt0
        \<and> (if wantsNearest query then deleteProp flt0 ''maxDistanceKm'' else Inr flt0) = Inr flt
        \<and> query \<noteq> [] \<and> \<not> validateFilter flt
      \<longrightarrow> search e (Some query)
            = Status422 ''invalid filter generated'' (validateFilter_errors flt)
          \<and> validateFilter_errors flt \<noteq> [])
   \<and> ((\<forall>k \<in> set (textKeys @ numberKeys). map_of f1 k = map_of f2 k)
      \<longrightarrow> applyFilter tn records (JObj f1) = applyFilter tn records (JObj f2))"
proof (intro conjI impI)
  show "validateFilter (JObj f) \<longleftrightarrow>
      (\<forall>k v. map_of f k = Some v \<longrightarrow>
         (k \<in> set textKeys \<and> isString v) \<or> (k \<in> set numberKeys \<and> isNumber v))"
    by (rule validateFilter_keys)
next
  assume "validateFilter flt"
  then show "\<exists>h. flt = JObj h" by (rule validateFilter_object)
next
  assume a: "queryToFilter e query = Inr flt0
        \<and> (if wantsNearest query then deleteProp flt0 ''maxDistanceKm'' else Inr flt0) = Inr flt
        \<and> query \<noteq> [] \<and> \<not> validateFilter flt"
  then show "search e (Some query)
            = Status422 ''invalid filter generated'' (validateFilter_errors flt)"
    by (intro search_invalid [of e query flt0 flt]) simp_all
  from a show "validateFilter_errors flt \<noteq> []"
    by (simp add: validateFilter_def)
next
  assume "\<forall>k \<in> set (textKeys @ numberKeys). map_of f1 k = map_of f2 k"
  then show "applyFilter tn records (JObj f1) = applyFilter tn records (JObj f2)"
    by (rule applyFilter_cong)
qed

theorem validateFilter_whitelist_witness:
  "validateFilter (JObj [(''brand'', JStr ''westin''), (''maxDistanceKm'', JNum (- 3))])
   \<and> search (demoEnv (JObj [(''city'', JStr ''Hyderabad''), (''country'', JStr ''India'')]))
        (Some ''hotels in hyderabad'')
       = Status422 ''invalid filter generated'' [MustNotHaveAdditional ''country'']
   \<and> applyFilter (\<lambda>v. None) demoHotels
        (JObj [(''city'', JStr ''Hyderabad''), (''country'', JStr ''India'')])
       = applyFilter (\<lambda>v. None) demoHotels (JObj [(''city'', JStr ''Hyderabad'')])"
proof -
  let ?ok = "[(''brand'', JStr ''westin''), (''maxDistanceKm'', JNum (- 3))]"
  let ?bad = "[(''city'', JStr ''Hyderabad''), (''country'', JStr ''India'')]"
  let ?good = "[(''city'', JStr ''Hyderabad'')]"
  let ?e = "demoEnv (JObj ?bad)"
  let ?q = "''hotels in hyderabad''"
  note w = validateFilter_whitelist [where f = ?ok and flt = "JObj ?bad" and e = ?e
      and query = ?q and ?flt0.0 = "JObj ?bad" and ?f1.0 = ?bad and ?f2.0 = ?good
      and tn = "\<lambda>v. None" and records = demoHotels]
  have typed: "\<forall>k v. map_of ?ok k = Some v \<longrightarrow>
         (k \<in> set textKeys \<and> isString v) \<or> (k \<in> set numberKeys \<and> isNumber v)"
    by (simp add: textKeys_def numberKeys_def)
  have ok: "validateFilter (JObj ?ok)"
    using typed by (rule w [THEN conjunct1, THEN iffD2])
  have h: "queryToFilter ?e ?q = Inr (JObj ?bad)
        \<and> (if wantsNearest ?q then deleteProp (JObj ?bad) ''maxDistanceKm'' else Inr (JObj ?bad))
            = Inr (JObj ?bad)
        \<and> ?q \<noteq> [] \<and> \<not> validateFilter (JObj ?bad)"
    by code_simp
  have errs: "validateFilter_errors (JObj ?bad) = [MustNotHaveAdditional ''country'']"
    by code_simp
  have rej: "search ?e (Some ?q) = Status422 ''invalid filter generated'' [MustNotHaveAdditional ''country'']"
    using w [THEN conjunct2, THEN conjunct2, THEN conjunct1, THEN mp, OF h] errs by simp
  have same: "\<forall>k \<in> set (textKeys @ numberKeys). map_of ?bad k = map_of ?good k"
    by (simp add: textKeys_def numberKeys_def)
  have eq: "applyFilter (\<lambda>v. None) demoHotels (JObj ?bad)
              = applyFilter (\<lambda>v. None) demoHotels (JObj ?good)"
    using same by (rule w [THEN conjunct2, THEN conjunct2, THEN conjunct2, THEN mp])
  from ok rej eq show ?thesis by blast
qed

text \<open>
  The schema has no lower bound for the numeric keys: a negative \<open>maxDistanceKm\<close> is
  accepted, against the acceptance condition of the specification, and a request whose
  translated filter holds one is answered with status 200.
\<close>

theorem validateFilter_nonnegative_counterexample:
  "validateFilter (JObj [(''maxDistanceKm'', JNum (- 3))])
   \<and> \<not> spec_accepts [(''maxDistanceKm'', JNum (- 3))]
   \<and> search (demoEnv (JObj [(''maxDistanceKm'', JNum (- 3))])) (Some ''hotels by the airport'')
       = Ok200 0 []"
  by code_simp

section \<open>The filter applier (C2)\<close>

text \<open>
  C2.  On a validated filter \<open>applyFilter\<close> returns (it does not throw) exactly the rows
  that satisfy the conjunction of the constraints of the keys present, in the order of
  the data set: a subsequence of it, hence no longer than it.  The filter with no key
  returns every row.
\<close>

theorem applyFilter_subsequence:
  "(validateFilter (JObj f) \<longrightarrow>
      applyFilter tn records (JObj f) = Inr (filter (satisfies f) records)
      \<and> subseq (filter (satisfies f) records) records
      \<and> length (filter (satisfies f) records) \<le> length records)
   \<and> applyFilter tn records (JObj []) = Inr records"
proof (intro conjI impI)
  assume v: "validateFilter (JObj f)"
  show "applyFilter tn records (JObj f) = Inr (filter (satisfies f) records)"
    by (rule applyFilter_validated [OF v])
  show "subseq (filter (satisfies f) records) records"
    by simp
  show "length (filter (satisfies f) records) \<le> length records"
    by simp
next
  have "validateFilter (JObj [])"
    by (simp add: validateFilter_JObj)
  then have "applyFilter tn records (JObj []) = Inr (filter (satisfies []) records)"
    by (rule applyFilter_validated)
  moreover have "satisfies [] = (\<lambda>r. True)"
    by (simp add: satisfies_def [abs_def] tokensOk_def brandOk_def)
  ultimately show "applyFilter tn records (JObj []) = Inr records"
    by simp
qed

theorem applyFilter_subsequence_witness:
  "validateFilter (JObj [(''city'', JStr ''new delhi''), (''maxPtsNight'', JNum 30000)])
   \<and> applyFilter (\<lambda>v. None) demoHotels
        (JObj [(''city'', JStr ''new delhi''), (''maxPtsNight'', JNum 30000)])
       = Inr [mkHotel ''JW Marriott'' ''JW Marriott New Delhi'' ''New Delhi'' ''Delhi'' 25000 0]
   \<and> applyFilter (\<lambda>v. None) demoHotels (JObj []) = Inr demoHotels"
proof -
  let ?f = "[(''city'', JStr ''new delhi''), (''maxPtsNight'', JNum 30000)]"
  have v: "validateFilter (JObj ?f)"
    by code_simp
  have e: "filter (satisfies ?f) demoHotels
             = [mkHotel ''JW Marriott'' ''JW Marriott New Delhi'' ''New Delhi'' ''Delhi'' 25000 0]"
    by code_simp
  note w = applyFilter_subsequence [of ?f "\<lambda>v. None" demoHotels]
  from w [THEN conjunct1, THEN mp, OF v] w [THEN conjunct2] e v show ?thesis
    by simp
qed

section \<open>The distance bound (C3)\<close>




section \<open>The umbrella brand (C4)\<close>

text \<open>
  C4.  A filter whose \<open>brand\<close>, trimmed and lower-cased, is \<open>marriott\<close> gives the same
  result as the same filter without \<open>brand\<close>, whatever else it holds.  For any other
  value, and a validated filter, the rows kept are those the rest of the filter keeps
  in which the value occurs, up to case, as a substring of the brand or of the hotel
  name.
\<close>

theorem brand_umbrella_noop:
  assumes b: "map_of f ''brand'' = Some (JStr b)"
  shows "(toLowerCase (trim b) = ''marriott'' \<longrightarrow>
            applyFilter tn records (JObj f)
              = applyFilter tn records (JObj (AList.delete ''brand'' f)))
         \<and> (toLowerCase (trim b) \<noteq> ''marriott'' \<and> validateFilter (JObj f) \<longrightarrow>
              (\<exists>res. applyFilter tn records (JObj (AList.delete ''brand'' f)) = Inr res
                 \<and> applyFilter tn records (JObj f)
                     = Inr (filter (\<lambda>r. contains (Brand r) b \<or> contains (Hotel r) b) res)))
         \<and> (contains text b
               \<longleftrightarrow> (\<exists>pre post. toLowerCase text = pre @ toLowerCase b @ post))"
proof (intro conjI impI)
  assume "toLowerCase (trim b) = ''marriott''"
  then show "applyFilter tn records (JObj f)
               = applyFilter tn records (JObj (AList.delete ''brand'' f))"
    by (rule applyFilter_umbrella [OF b])
next
  assume a: "toLowerCase (trim b) \<noteq> ''marriott'' \<and> validateFilter (JObj f)"
  then have v: "validateFilter (JObj f)" and n: "toLowerCase (trim b) \<noteq> ''marriott''"
    by simp_all
  let ?g = "AList.delete ''brand'' f"
  have g: "applyFilter tn records (JObj ?g) = Inr (filter (satisfies ?g) records)"
    by (rule applyFilter_validated [OF validateFilter_delete [OF v]])
  have "filter (satisfies f) records
          = filter (\<lambda>r. contains (Brand r) b \<or> contains (Hotel r) b)
              (filter (satisfies ?g) records)"
    using n by (auto simp: satisfies_without_brand [OF b] intro: filter_cong)
  then have "applyFilter tn records (JObj f)
               = Inr (filter (\<lambda>r. contains (Brand r) b \<or> contains (Hotel r) b)
                        (filter (satisfies ?g) records))"
    by (simp only: applyFilter_validated [OF v])
  with g show "\<exists>res. applyFilter tn records (JObj ?g) = Inr res
                 \<and> applyFilter tn records (JObj f)
                     = Inr (filter (\<lambda>r. contains (Brand r) b \<or> contains (Hotel r) b) res)"
    by blast
next
  show "contains text b \<longleftrightarrow> (\<exists>pre post. toLowerCase text = pre @ toLowerCase b @ post)"
    by (rule contains_iff)
qed

theorem brand_umbrella_noop_witness:
  "applyFilter (\<lambda>v. None) demoHotels (JObj [(''brand'', JStr '' MarriOTT '')]) = Inr demoHotels
   \<and> applyFilter (\<lambda>v. None) demoHotels (JObj [(''brand'', JStr ''WESTIN'')])
       = Inr [mkHotel ''Westin'' ''The Westin Gurgaon'' ''Gurgaon'' ''Haryana'' 30000 (25 / 2)]"
proof -
  let ?u = "[(''brand'', JStr '' MarriOTT '')]"
  let ?w = "[(''brand'', JStr ''WESTIN'')]"
  have bu: "map_of ?u ''brand'' = Some (JStr '' MarriOTT '')"
    and bw: "map_of ?w ''brand'' = Some (JStr ''WESTIN'')"
    by simp_all
  have all: "applyFilter (\<lambda>v. None) demoHotels (JObj []) = Inr demoHotels"
    by code_simp
  have u: "toLowerCase (trim '' MarriOTT '') = ''marriott''"
    by code_simp
  have w: "toLowerCase (trim ''WESTIN'') \<noteq> ''marriott'' \<and> validateFilter (JObj ?w)"
    by code_simp
  have fw: "filter (\<lambda>r. contains (Brand r) ''WESTIN'' \<or> contains (Hotel r) ''WESTIN'') demoHotels
              = [mkHotel ''Westin'' ''The Westin Gurgaon'' ''Gurgaon'' ''Haryana'' 30000 (25 / 2)]"
    by code_simp
  from brand_umbrella_noop [OF bu, of "\<lambda>v. None" demoHotels, THEN conjunct1, THEN mp, OF u] all
  have 1: "applyFilter (\<lambda>v. None) demoHotels (JObj ?u) = Inr demoHotels"
    by simp
  from brand_umbrella_noop [OF bw, of "\<lambda>v. None" demoHotels,
      THEN conjunct2, THEN conjunct1, THEN mp, OF w] all fw
  have 2: "applyFilter (\<lambda>v. None) demoHotels (JObj ?w)
       = Inr [mkHotel ''Westin'' ''The Westin Gurgaon'' ''Gurgaon'' ''Haryana'' 30000 (25 / 2)]"
    by auto
  from 1 2 show ?thesis by blast
qed

section \<open>Blank token values (C10)\<close>

text \<open>
  C10.  For \<open>city\<close>, \<open>hotel\<close> and \<open>state\<close>: a value that is not empty but consists of white
  space only has no token, so every text contains all its tokens and the filter selects
  the same rows as without that key.
\<close>

theorem blank_token_value_unconstrained:
  assumes k: "k \<in> {''city'', ''hotel'', ''state''}"
    and v: "map_of f k = Some (JStr v)"
    and ne: "v \<noteq> []"
    and blank: "\<forall>c \<in> set v. isSpace c"
  shows "tokensOf v = []
         \<and> containsAllTokens text v
         \<and> applyFilter tn records (JObj f) = applyFilter tn records (JObj (AList.delete k f))"
proof -
  let ?g = "AList.delete k f"
  have t: "tokensOf v = []"
    by (rule tokensOf_spaces [OF blank])
  have c: "containsAllTokens text v"
    by (simp add: containsAllTokens_def t)
  note here = tokenFilter_blank [OF v t]
  note gone = tokenFilter_absent [OF map_of_delete_same [of k f]]
  note rest = other_filters_delete_text [OF k, where f = f]
  from k have "applyFilter tn records (JObj f) = applyFilter tn records (JObj ?g)"
  proof (elim insertE emptyE)
    assume kc: "k = ''city''"
    show ?thesis
      unfolding applyFilter_def rest
      using here gone by (simp add: kc tokenFilter_delete_other)
  next
    assume kh: "k = ''hotel''"
    show ?thesis
      unfolding applyFilter_def rest
      using here gone by (simp add: kh tokenFilter_delete_other)
  next
    assume ks: "k = ''state''"
    show ?thesis
      unfolding applyFilter_def rest
      using here gone by (simp add: ks tokenFilter_delete_other)
  qed
  with t c show ?thesis by blast
qed

theorem blank_token_value_unconstrained_witness:
  "tokensOf ''   '' = []
   \<and> applyFilter (\<lambda>v. None) demoHotels (JObj [(''state'', JStr ''   ''), (''city'', JStr ''hyderabad'')])
       = applyFilter (\<lambda>v. None) demoHotels (JObj [(''city'', JStr ''hyderabad'')])"
proof -
  let ?f = "[(''state'', JStr ''   ''), (''city'', JStr ''hyderabad'')]"
  have k: "''state'' \<in> {''city'', ''hotel'', ''state''}" by simp
  have v: "map_of ?f ''state'' = Some (JStr ''   '')" by simp
  have ne: "''   '' \<noteq> []" by simp
  have blank: "\<forall>c \<in> set ''   ''. isSpace c" by (simp add: isSpace_def)
  have d: "AList.delete ''state'' ?f = [(''city'', JStr ''hyderabad'')]" by simp
  from blank_token_value_unconstrained [OF k v ne blank, of "[]" "\<lambda>v. None" demoHotels] d
  show ?thesis by simp
qed

section \<open>The cheapest intent (C5)\<close>

text \<open>
  C5.  When the query matches \<open>cheapest\<close>, \<open>lowest\<close>, \<open>least expensive\<close>, \<open>min\<close> or \<open>minimum\<close>
  as a whole word, in any case, the cheapest step keeps exactly the rows whose
  \<open>AvgPtsNight\<close> is the least of the set it is given, ties included, in their order; and
  the request, once its filter is validated, answers with the rows of \<open>applyFilter\<close>
  reduced in this way (and then put through the nearest step).  For the points
  \<open>30000, 25000, 25000, 40000\<close> the two rows at \<open>25000\<close> remain.
\<close>

theorem cheapest_reduction:
  assumes cheap: "wantsCheapest query"
  shows "cheapestStage query data
           = filter (\<lambda>r. \<forall>r' \<in> set data. AvgPtsNight r \<le> AvgPtsNight r') data
         \<and> (queryToFilter e query = Inr flt0
              \<and> (if wantsNearest query then deleteProp flt0 ''maxDistanceKm'' else Inr flt0)
                  = Inr flt
              \<and> validateFilter flt \<longrightarrow>
             (\<exists>res. applyFilter (env_toNumber e) (env_records e) flt = Inr res
               \<and> search e (Some query)
                   = Ok200 (length (nearestStage query
                              (filter (\<lambda>r. \<forall>r' \<in> set res. AvgPtsNight r \<le> AvgPtsNight r') res)))
                       (nearestStage query
                          (filter (\<lambda>r. \<forall>r' \<in> set res. AvgPtsNight r \<le> AvgPtsNight r') res))))"
proof (intro conjI impI)
  show "cheapestStage query data
           = filter (\<lambda>r. \<forall>r' \<in> set data. AvgPtsNight r \<le> AvgPtsNight r') data"
    by (rule cheapestStage_minimum [OF cheap])
next
  assume a: "queryToFilter e query = Inr flt0
              \<and> (if wantsNearest query then deleteProp flt0 ''maxDistanceKm'' else Inr flt0)
                  = Inr flt
              \<and> validateFilter flt"
  then have t: "queryToFilter e query = Inr flt0"
    and s: "(if wantsNearest query then deleteProp flt0 ''maxDistanceKm'' else Inr flt0) = Inr flt"
    and v: "validateFilter flt"
    by simp_all
  from applyFilter_total [OF v] obtain res
    where res: "applyFilter (env_toNumber e) (env_records e) flt = Inr res" by blast
  from search_valid [OF wantsCheapest_nonempty [OF cheap] t s v res]
  have "search e (Some query)
          = Ok200 (length (nearestStage query
                     (filter (\<lambda>r. \<forall>r' \<in> set res. AvgPtsNight r \<le> AvgPtsNight r') res)))
              (nearestStage query
                 (filter (\<lambda>r. \<forall>r' \<in> set res. AvgPtsNight r \<le> AvgPtsNight r') res))"
    by (simp only: cheapestStage_minimum [OF cheap])
  with res show "\<exists>res. applyFilter (env_toNumber e) (env_records e) flt = Inr res
               \<and> search e (Some query)
                   = Ok200 (length (nearestStage query
                              (filter (\<lambda>r. \<forall>r' \<in> set res. AvgPtsNight r \<le> AvgPtsNight r') res)))
                       (nearestStage query
                          (filter (\<lambda>r. \<forall>r' \<in> set res. AvgPtsNight r \<le> AvgPtsNight r') res))"
    by blast
qed

theorem cheapest_reduction_witness:
  "cheapestStage ''Cheapest marriott redemption'' demoHotels
     = [mkHotel ''JW Marriott'' ''JW Marriott New Delhi'' ''New Delhi'' ''Delhi'' 25000 0,
        mkHotel ''Courtyard'' ''Courtyard Hyderabad'' ''Hyderabad'' ''Telangana'' 25000 30]
   \<and> search (demoEnv (JObj [(''brand'', JStr ''marriott'')])) (Some ''Cheapest marriott redemption'')
     = Ok200 2
        [mkHotel ''JW Marriott'' ''JW Marriott New Delhi'' ''New Delhi'' ''Delhi'' 25000 0,
         mkHotel ''Courtyard'' ''Courtyard Hyderabad'' ''Hyderabad'' ''Telangana'' 25000 30]"
proof -
  let ?q = "''Cheapest marriott redemption''"
  let ?flt = "JObj [(''brand'', JStr ''marriott'')]"
  let ?e = "demoEnv ?flt"
  let ?low = "\<lambda>xs. filter (\<lambda>r. \<forall>r' \<in> set xs. AvgPtsNight r \<le> AvgPtsNight r') xs"
  have cheap: "wantsCheapest ?q" by code_simp
  have near: "\<not> wantsNearest ?q" by code_simp
  have h: "queryToFilter ?e ?q = Inr ?flt
             \<and> (if wantsNearest ?q then deleteProp ?flt ''maxDistanceKm'' else Inr ?flt) = Inr ?flt
             \<and> validateFilter ?flt"
    by code_simp
  have a: "applyFilter (env_toNumber ?e) (env_records ?e) ?flt = Inr demoHotels" by code_simp
  have m: "?low demoHotels
             = [mkHotel ''JW Marriott'' ''JW Marriott New Delhi'' ''New Delhi'' ''Delhi'' 25000 0,
                mkHotel ''Courtyard'' ''Courtyard Hyderabad'' ''Hyderabad'' ''Telangana'' 25000 30]"
    by (simp add: demoHotels_def mkHotel_def)
  note w = cheapest_reduction [OF cheap, of demoHotels ?e ?flt ?flt]
  from w [THEN conjunct1] w [THEN conjunct2, THEN mp, OF h] a
  have "cheapestStage ?q demoHotels = ?low demoHotels"
    and "search ?e (Some ?q)
           = Ok200 (length (nearestStage ?q (?low demoHotels))) (nearestStage ?q (?low demoHotels))"
    by auto
  then show ?thesis
    using near by (simp add: m nearestStage_def)
qed

section \<open>The numeric sanity correction (C8)\<close>

text \<open>
  C8.  Let the model's reply hold, under \<open>minPtsNight\<close> (or \<open>maxPtsNight\<close>), a number or
  nothing.  Then the corrected filter has that key exactly when the reply has it with a
  value of at least \<open>1000\<close>, and the value is the reply's: a value below \<open>1000\<close> is
  deleted, \<open>1000\<close> itself stays.
\<close>

theorem small_points_dropped:
  assumes t: "queryToFilter e query = Inr flt"
    and raw: "env_llm e query = Parsed raw"
    and key: "key = ''minPtsNight'' \<or> key = ''maxPtsNight''"
    and num: "getProp raw key = Inr None \<or> (\<exists>x. getProp raw key = Inr (Some (JNum x)))"
  shows "((\<exists>v. getProp flt key = Inr (Some v))
            \<longleftrightarrow> (\<exists>x. getProp raw key = Inr (Some (JNum x)) \<and> 1000 \<le> x))
         \<and> (\<forall>v. getProp flt key = Inr (Some v) \<longrightarrow> getProp raw key = Inr (Some v))"
proof -
  from queryToFilter_Inr [OF t] raw have c: "correct e query raw = Inr flt"
    by auto
  have fn: "flt \<noteq> JNull"
    by (rule correct_Inr(1) [OF c])
  from num have rn: "raw \<noteq> JNull"
    by (cases raw) auto
  have own: "ownProp flt key
               = (case ownProp raw key of
                    Some x \<Rightarrow> if lt_num (env_toNumber e) x 1000 then None else Some x
                  | None \<Rightarrow> None)"
    using correct_Inr(2) [OF c, of key] key by blast
  from num have "ownProp raw key = None \<or> (\<exists>x. ownProp raw key = Some (JNum x))"
    by (simp add: getProp_ownProp [OF rn])
  then show ?thesis
  proof
    assume "ownProp raw key = None"
    then show ?thesis
      by (simp add: own getProp_ownProp [OF rn] getProp_ownProp [OF fn])
  next
    assume "\<exists>x. ownProp raw key = Some (JNum x)"
    then obtain x where x: "ownProp raw key = Some (JNum x)" by blast
    show ?thesis
      by (auto simp: own x getProp_ownProp [OF rn] getProp_ownProp [OF fn] lt_num_def)
  qed
qed

theorem small_points_dropped_witness:
  "queryToFilter (demoEnv (JObj [(''maxPtsNight'', JNum 5), (''minPtsNight'', JNum 1000)])) ''hotels for 5 nights''
     = Inr (JObj [(''minPtsNight'', JNum 1000)])
   \<and> getProp (JObj [(''minPtsNight'', JNum 1000)]) ''maxPtsNight'' = Inr None"
proof -
  let ?raw = "JObj [(''maxPtsNight'', JNum 5), (''minPtsNight'', JNum 1000)]"
  let ?flt = "JObj [(''minPtsNight'', JNum 1000)]"
  let ?q = "''hotels for 5 nights''"
  have t: "queryToFilter (demoEnv ?raw) ?q = Inr ?flt" by code_simp
  have raw: "env_llm (demoEnv ?raw) ?q = Parsed ?raw" by (simp add: demoEnv_def)
  have key: "''maxPtsNight'' = ''minPtsNight'' \<or> ''maxPtsNight'' = ''maxPtsNight''" by simp
  have num: "getProp ?raw ''maxPtsNight'' = Inr None
               \<or> (\<exists>x. getProp ?raw ''maxPtsNight'' = Inr (Some (JNum x)))" by simp
  from small_points_dropped [OF t raw key num]
  have "(\<exists>v. getProp ?flt ''maxPtsNight'' = Inr (Some v))
          \<longleftrightarrow> (\<exists>x. getProp ?raw ''maxPtsNight'' = Inr (Some (JNum x)) \<and> 1000 \<le> x)"
    by blast
  then have "getProp ?flt ''maxPtsNight'' = Inr None"
    by simp
  with t show ?thesis by blast
qed

section \<open>The nearest intent (C6)\<close>

text \<open>
  C6.  When the query matches \<open>nearest\<close> or \<open>closest\<close> as a whole word and the translator
  returns a filter, (a) \<open>maxDistanceKm\<close> is deleted from it (without a fault) before the
  validator sees it, and (b) if the stripped filter is valid the answer is the rows of
  \<open>applyFilter\<close>, after the cheapest step, restricted to a strictly positive distance,
  sorted by ascending distance and cut to the first five: at most five rows, all at a
  positive distance, in ascending order of distance.  If it is not valid the answer
  is status 422.
\<close>

theorem nearest_intent:
  assumes near: "wantsNearest query"
    and t: "queryToFilter e query = Inr flt0"
  shows "\<exists>flt. deleteProp flt0 ''maxDistanceKm'' = Inr flt
           \<and> getProp flt ''maxDistanceKm'' = Inr None
           \<and> (if validateFilter flt then
                 \<exists>res data.
                   applyFilter (env_toNumber e) (env_records e) flt = Inr res
                   \<and> data = take 5 (sort_key DistanceKmFromAirport
                                (filter (\<lambda>r. 0 < DistanceKmFromAirport r)
                                   (cheapestStage query res)))
                   \<and> search e (Some query) = Ok200 (length data) data
                   \<and> length data \<le> 5
                   \<and> (\<forall>r \<in> set data. 0 < DistanceKmFromAirport r)
                   \<and> sorted (map DistanceKmFromAirport data)
               else search e (Some query)
                      = Status422 ''invalid filter generated'' (validateFilter_errors flt))"
proof -
  have q: "query \<noteq> []"
    by (rule wantsNearest_nonempty [OF near])
  from deleteProp_total [OF queryToFilter_not_null [OF t]]
  obtain flt where d: "deleteProp flt0 ''maxDistanceKm'' = Inr flt" by blast
  then have s: "(if wantsNearest query then deleteProp flt0 ''maxDistanceKm'' else Inr flt0) = Inr flt"
    using near by simp
  from deleteProp_Inr [OF d] have g: "getProp flt ''maxDistanceKm'' = Inr None"
    by (simp add: getProp_ownProp)
  show ?thesis
  proof (cases "validateFilter flt")
    case False
    with d g search_invalid [OF t s q False] show ?thesis
      by (intro exI [of _ flt]) simp
  next
    case True
    from applyFilter_total [OF True] obtain res
      where res: "applyFilter (env_toNumber e) (env_records e) flt = Inr res" by blast
    let ?data = "nearestStage query (cheapestStage query res)"
    note n = nearestStage_near [OF near, of "cheapestStage query res"]
    have srch: "search e (Some query) = Ok200 (length ?data) ?data"
      by (rule search_valid [OF q t s True res])
    have ex: "\<exists>res data.
                   applyFilter (env_toNumber e) (env_records e) flt = Inr res
                   \<and> data = take 5 (sort_key DistanceKmFromAirport
                                (filter (\<lambda>r. 0 < DistanceKmFromAirport r)
                                   (cheapestStage query res)))
                   \<and> search e (Some query) = Ok200 (length data) data
                   \<and> length data \<le> 5
                   \<and> (\<forall>r \<in> set data. 0 < DistanceKmFromAirport r)
                   \<and> sorted (map DistanceKmFromAirport data)"
    proof (rule exI [of _ res], rule exI [of _ ?data], intro conjI)
      show "applyFilter (env_toNumber e) (env_records e) flt = Inr res" by (rule res)
      show "?data = take 5 (sort_key DistanceKmFromAirport
                                (filter (\<lambda>r. 0 < DistanceKmFromAirport r)
                                   (cheapestStage query res)))" by (rule n(1))
      show "search e (Some query) = Ok200 (length ?data) ?data" by (rule srch)
      show "length ?data \<le> 5" by (rule n(2))
      show "\<forall>r \<in> set ?data. 0 < DistanceKmFromAirport r" using n(3) by blast
      show "sorted (map DistanceKmFromAirport ?data)" by (rule n(4))
    qed
    show ?thesis
      by (intro exI [of _ flt] conjI d g) (simp only: True if_True ex)
  qed
qed

theorem nearest_intent_witness:
  "search ((demoEnv (JObj [(''maxDistanceKm'', JNum 5)])) \<lparr> env_records := moreHotels \<rparr>)
      (Some ''hotels Nearest the airport'')
     = Ok200 5
        [mkHotel ''Aloft'' ''Aloft Bengaluru'' ''Bengaluru'' ''Karnataka'' 12000 2,
         mkHotel ''Fairfield'' ''Fairfield Pune'' ''Pune'' ''Maharashtra'' 9000 5,
         mkHotel ''Sheraton'' ''Sheraton Hyderabad'' ''Hyderabad'' ''Telangana'' 40000 8,
         mkHotel ''Westin'' ''The Westin Gurgaon'' ''Gurgaon'' ''Haryana'' 30000 (25 / 2),
         mkHotel ''Courtyard'' ''Courtyard Hyderabad'' ''Hyderabad'' ''Telangana'' 25000 30]"
proof -
  let ?raw = "JObj [(''maxDistanceKm'', JNum 5)]"
  let ?e = "(demoEnv ?raw) \<lparr> env_records := moreHotels \<rparr>"
  let ?q = "''hotels Nearest the airport''"
  let ?out = "[mkHotel ''Aloft'' ''Aloft Bengaluru'' ''Bengaluru'' ''Karnataka'' 12000 2,
         mkHotel ''Fairfield'' ''Fairfield Pune'' ''Pune'' ''Maharashtra'' 9000 5,
         mkHotel ''Sheraton'' ''Sheraton Hyderabad'' ''Hyderabad'' ''Telangana'' 40000 8,
         mkHotel ''Westin'' ''The Westin Gurgaon'' ''Gurgaon'' ''Haryana'' 30000 (25 / 2),
         mkHotel ''Courtyard'' ''Courtyard Hyderabad'' ''Hyderabad'' ''Telangana'' 25000 30]"
  have near: "wantsNearest ?q" by code_simp
  have t: "queryToFilter ?e ?q = Inr ?raw" by code_simp
  from nearest_intent [OF near t] obtain flt where
    d: "deleteProp ?raw ''maxDistanceKm'' = Inr flt" and
    c: "if validateFilter flt then
          \<exists>res data.
            applyFilter (env_toNumber ?e) (env_records ?e) flt = Inr res
            \<and> data = take 5 (sort_key DistanceKmFromAirport
                         (filter (\<lambda>r. 0 < DistanceKmFromAirport r) (cheapestStage ?q res)))
            \<and> search ?e (Some ?q) = Ok200 (length data) data
            \<and> length data \<le> 5
            \<and> (\<forall>r \<in> set data. 0 < DistanceKmFromAirport r)
            \<and> sorted (map DistanceKmFromAirport data)
        else search ?e (Some ?q) = Status422 ''invalid filter generated'' (validateFilter_errors flt)"
    by blast
  from d have flt: "flt = JObj []" by simp
  have v: "validateFilter (JObj [])" by code_simp
  have a: "applyFilter (env_toNumber ?e) (env_records ?e) (JObj []) = Inr moreHotels"
    by code_simp
  have s: "take 5 (sort_key DistanceKmFromAirport
             (filter (\<lambda>r. 0 < DistanceKmFromAirport r) (cheapestStage ?q moreHotels))) = ?out"
    by code_simp
  from c obtain res data where
    "applyFilter (env_toNumber ?e) (env_records ?e) (JObj []) = Inr res"
    "data = take 5 (sort_key DistanceKmFromAirport
                         (filter (\<lambda>r. 0 < DistanceKmFromAirport r) (cheapestStage ?q res)))"
    "search ?e (Some ?q) = Ok200 (length data) data"
    unfolding flt using v by auto
  with a s have "search ?e (Some ?q) = Ok200 (length ?out) ?out"
    by simp
  then show ?thesis by simp
qed

section \<open>The state correction (C7)\<close>

text \<open>
  C7.  On a filter whose \<open>city\<close> (as canonicalised) is a non-empty text, whose \<open>state\<close> is
  missing or falsy and whose lower-case \<open>city\<close> is a known state, the correction of lines
  119-126 returns the filter with \<open>state\<close> set to that text and \<open>city\<close> deleted.  For the
  reply \<open>{"city": "Haryana"}\<close> and \<open>haryana\<close> a known state, canonicalisation and the
  correction give \<open>{"state": "Haryana"}\<close>; this is also what the translator returns,
  unless the query mentions a city alias, which the inference that follows (lines
  128-136) then puts back as \<open>city\<close>.
\<close>

theorem state_misclassification:
  "(map_of f ''city'' = Some (JStr name) \<and> name \<noteq> [] \<and> \<not> truthy (map_of f ''state'')
      \<and> toLowerCase name \<in> set states \<longrightarrow>
      correctState states (JObj f)
        = Inr (JObj (AList.delete ''city'' (AList.update ''state'' (JStr name) f)))
      \<and> getProp (JObj (AList.delete ''city'' (AList.update ''state'' (JStr name) f))) ''state''
          = Inr (Some (JStr name))
      \<and> getProp (JObj (AList.delete ''city'' (AList.update ''state'' (JStr name) f))) ''city''
          = Inr None)
   \<and> (''haryana'' \<in> set states \<longrightarrow>
        bindE (canonicaliseCity (JObj [(''city'', JStr ''Haryana'')])) (correctState states)
          = Inr (JObj [(''state'', JStr ''Haryana'')]))
   \<and> (env_apiKey e \<and> env_llm e query = Parsed (JObj [(''city'', JStr ''Haryana'')])
        \<and> ''haryana'' \<in> set (knownStates (env_records e)) \<longrightarrow>
        queryToFilter e query
          = Inr (JObj (case find (\<lambda>(alias, canon). str_includes (toLowerCase query) alias)
                              cityAliases of
                         None \<Rightarrow> [(''state'', JStr ''Haryana'')]
                       | Some (alias, canon) \<Rightarrow>
                           [(''state'', JStr ''Haryana''), (''city'', JStr canon)])))"
proof (intro conjI impI)
  assume a: "map_of f ''city'' = Some (JStr name) \<and> name \<noteq> [] \<and> \<not> truthy (map_of f ''state'')
      \<and> toLowerCase name \<in> set states"
  then show "correctState states (JObj f)
           = Inr (JObj (AList.delete ''city'' (AList.update ''state'' (JStr name) f)))"
    by (intro correctState_moves) simp_all
  show "getProp (JObj (AList.delete ''city'' (AList.update ''state'' (JStr name) f))) ''state''
             = Inr (Some (JStr name))"
    by (simp add: AList.delete_conv' AList.update_conv')
  show "getProp (JObj (AList.delete ''city'' (AList.update ''state'' (JStr name) f))) ''city''
             = Inr None"
    by (simp add: AList.delete_conv')
next
  assume "''haryana'' \<in> set states"
  then show "bindE (canonicaliseCity (JObj [(''city'', JStr ''Haryana'')])) (correctState states)
                 = Inr (JObj [(''state'', JStr ''Haryana'')])"
    by (rule haryana_step)
next
  assume a: "env_apiKey e \<and> env_llm e query = Parsed (JObj [(''city'', JStr ''Haryana'')])
              \<and> ''haryana'' \<in> set (knownStates (env_records e))"
  show "queryToFilter e query
                 = Inr (JObj (case find (\<lambda>(alias, canon). str_includes (toLowerCase query) alias)
                                     cityAliases of
                                None \<Rightarrow> [(''state'', JStr ''Haryana'')]
                              | Some (alias, canon) \<Rightarrow>
                                  [(''state'', JStr ''Haryana''), (''city'', JStr canon)]))"
    using a by (intro haryana_translated) simp_all
qed

theorem state_misclassification_witness:
  "correctState (knownStates demoHotels) (JObj [(''city'', JStr ''Haryana''), (''maxPtsNight'', JNum 30000)])
     = Inr (JObj [(''maxPtsNight'', JNum 30000), (''state'', JStr ''Haryana'')])
   \<and> bindE (canonicaliseCity (JObj [(''city'', JStr ''Haryana'')])) (correctState (knownStates demoHotels))
       = Inr (JObj [(''state'', JStr ''Haryana'')])
   \<and> queryToFilter (demoEnv (JObj [(''city'', JStr ''Haryana'')])) ''hotels in Haryana''
       = Inr (JObj [(''state'', JStr ''Haryana'')])"
proof -
  let ?f = "[(''city'', JStr ''Haryana''), (''maxPtsNight'', JNum 30000)]"
  let ?raw = "JObj [(''city'', JStr ''Haryana'')]"
  let ?q = "''hotels in Haryana''"
  have h: "''haryana'' \<in> set (knownStates demoHotels)" by code_simp
  have l: "toLowerCase ''Haryana'' = ''haryana''" by code_simp
  have c: "map_of ?f ''city'' = Some (JStr ''Haryana'') \<and> ''Haryana'' \<noteq> []
             \<and> \<not> truthy (map_of ?f ''state'')
             \<and> toLowerCase ''Haryana'' \<in> set (knownStates demoHotels)"
    using h by (simp add: l)
  have e: "env_apiKey (demoEnv ?raw) \<and> env_llm (demoEnv ?raw) ?q = Parsed ?raw
             \<and> ''haryana'' \<in> set (knownStates (env_records (demoEnv ?raw)))"
    using h by (simp add: demoEnv_def)
  have n: "find (\<lambda>(alias, canon). str_includes (toLowerCase ?q) alias) cityAliases = None"
    by code_simp
  note w = state_misclassification [where f = ?f and name = "''Haryana''"
      and states = "knownStates demoHotels" and e = "demoEnv ?raw" and query = ?q]
  have 1: "correctState (knownStates demoHotels) (JObj ?f)
             = Inr (JObj [(''maxPtsNight'', JNum 30000), (''state'', JStr ''Haryana'')])"
    using w [THEN conjunct1, THEN mp, OF c, THEN conjunct1] by simp
  have 2: "bindE (canonicaliseCity ?raw) (correctState (knownStates demoHotels))
             = Inr (JObj [(''state'', JStr ''Haryana'')])"
    using h by (rule w [THEN conjunct2, THEN conjunct1, THEN mp])
  have 3: "queryToFilter (demoEnv ?raw) ?q = Inr (JObj [(''state'', JStr ''Haryana'')])"
    using w [THEN conjunct2, THEN conjunct2, THEN mp, OF e]
    by (simp add: n)
  from 1 2 3 show ?thesis by blast
qed

text \<open>The inference after the correction, on a query that mentions an alias.\<close>

lemma state_correction_then_inferCity:
  "queryToFilter (demoEnv (JObj [(''city'', JStr ''Haryana'')])) ''hotels in haryana near delhi''
     = Inr (JObj [(''state'', JStr ''Haryana''), (''city'', JStr ''new delhi'')])"
  by code_simp

section \<open>The outcomes of a request (C9)\<close>

text \<open>
  C9.  Every request has exactly one of four outcomes, and nothing is thrown past the
  handler: status 400 when the query is missing or empty; status 503 with the error
  when \<open>queryToFilter\<close> throws; status 422 with the validator's errors, which are not
  empty and each name an offending key or type, when the filter is refused; otherwise
  status 200 with the count and the rows (rows of the data set, whole), a validated
  filter never making \<open>applyFilter\<close> throw.  \<open>queryToFilter\<close> throws when the credential
  is missing, when the reply is no JSON, has no text or the call to the model fails.
\<close>

theorem search_outcomes:
  "((q = None \<or> q = Some []) \<and> search e q = Status400 ''query field required''
    \<or> (\<exists>query err. q = Some query \<and> query \<noteq> []
          \<and> queryToFilter e query = Inl err
          \<and> search e q = Status503 err)
    \<or> (\<exists>query flt0 flt. q = Some query \<and> query \<noteq> []
          \<and> queryToFilter e query = Inr flt0
          \<and> (if wantsNearest query then deleteProp flt0 ''maxDistanceKm'' else Inr flt0) = Inr flt
          \<and> \<not> validateFilter flt
          \<and> validateFilter_errors flt \<noteq> []
          \<and> list_all (offending flt) (validateFilter_errors flt)
          \<and> search e q = Status422 ''invalid filter generated'' (validateFilter_errors flt))
    \<or> (\<exists>query flt0 flt res data. q = Some query \<and> query \<noteq> []
          \<and> queryToFilter e query = Inr flt0
          \<and> (if wantsNearest query then deleteProp flt0 ''maxDistanceKm'' else Inr flt0) = Inr flt
          \<and> validateFilter flt
          \<and> applyFilter (env_toNumber e) (env_records e) flt = Inr res
          \<and> data = nearestStage query (cheapestStage query res)
          \<and> set data \<subseteq> set (env_records e)
          \<and> search e q = Ok200 (length data) data))
   \<and> queryToFilter (e \<lparr> env_apiKey := False \<rparr>) text = Inl (Error ''OPENAI_API_KEY missing'')
   \<and> queryToFilter (e \<lparr> env_apiKey := True, env_llm := (\<lambda>query. NotJson) \<rparr>) text
       = Inl SyntaxError
   \<and> queryToFilter (e \<lparr> env_apiKey := True, env_llm := (\<lambda>query. NoContent) \<rparr>) text
       = Inl TypeError
   \<and> queryToFilter (e \<lparr> env_apiKey := True, env_llm := (\<lambda>query. ApiError msg) \<rparr>) text
       = Inl (ApiFault msg)"
proof (intro conjI)
  show "queryToFilter (e \<lparr> env_apiKey := False \<rparr>) text = Inl (Error ''OPENAI_API_KEY missing'')"
    by (simp add: queryToFilter_def)
  show "queryToFilter (e \<lparr> env_apiKey := True, env_llm := (\<lambda>query. NotJson) \<rparr>) text
       = Inl SyntaxError"
    by (simp add: queryToFilter_def)
  show "queryToFilter (e \<lparr> env_apiKey := True, env_llm := (\<lambda>query. NoContent) \<rparr>) text
       = Inl TypeError"
    by (simp add: queryToFilter_def)
  show "queryToFilter (e \<lparr> env_apiKey := True, env_llm := (\<lambda>query. ApiError msg) \<rparr>) text
       = Inl (ApiFault msg)"
    by (simp add: queryToFilter_def)
  let ?A = "(q = None \<or> q = Some []) \<and> search e q = Status400 ''query field required''"
  let ?B = "\<exists>query err. q = Some query \<and> query \<noteq> []
          \<and> queryToFilter e query = Inl err
          \<and> search e q = Status503 err"
  let ?C = "\<exists>query flt0 flt. q = Some query \<and> query \<noteq> []
          \<and> queryToFilter e query = Inr flt0
          \<and> (if wantsNearest query then deleteProp flt0 ''maxDistanceKm'' else Inr flt0) = Inr flt
          \<and> \<not> validateFilter flt
          \<and> validateFilter_errors flt \<noteq> []
          \<and> list_all (offending flt) (validateFilter_errors flt)
          \<and> search e q = Status422 ''invalid filter generated'' (validateFilter_errors flt)"
  let ?D = "\<exists>query flt0 flt res data. q = Some query \<and> query \<noteq> []
          \<and> queryToFilter e query = Inr flt0
          \<and> (if wantsNearest query then deleteProp flt0 ''maxDistanceKm'' else Inr flt0) = Inr flt
          \<and> validateFilter flt
          \<and> applyFilter (env_toNumber e) (env_records e) flt = Inr res
          \<and> data = nearestStage query (cheapestStage query res)
          \<and> set data \<subseteq> set (env_records e)
          \<and> search e q = Ok200 (length data) data"
  show "?A \<or> ?B \<or> ?C \<or> ?D"
  proof (cases "q = None \<or> q = Some []")
    case True
    then have ?A by (simp add: search_missing)
    then show ?thesis by (rule disjI1)
  next
    case False
    then obtain query where q: "q = Some query" and ne: "query \<noteq> []"
      by (cases q) auto
    show ?thesis
    proof (cases "queryToFilter e query")
      case (Inl err)
      have ?B
        using q ne Inl search_fault [OF ne Inl] by blast
      then show ?thesis by blast
    next
      case (Inr flt0)
      from strip_total [OF Inr] obtain flt where
        s: "(if wantsNearest query then deleteProp flt0 ''maxDistanceKm'' else Inr flt0) = Inr flt"
        by blast
      show ?thesis
      proof (cases "validateFilter flt")
        case False
        have e: "validateFilter_errors flt \<noteq> []"
          using False by (simp add: validateFilter_def)
        have ?C
          using q ne Inr s False e validateFilter_errors_offending [of flt]
            search_invalid [OF Inr s ne False] by blast
        then show ?thesis by blast
      next
        case True
        from applyFilter_total [OF True] obtain res where
          res: "applyFilter (env_toNumber e) (env_records e) flt = Inr res" by blast
        let ?data = "nearestStage query (cheapestStage query res)"
        have sub: "set ?data \<subseteq> set (env_records e)"
          using set_nearestStage [of query "cheapestStage query res"]
            set_cheapestStage [of query res] set_applyFilter [OF True res]
          by blast
        have ok: "search e q = Ok200 (length ?data) ?data"
          unfolding q by (rule search_valid [OF ne Inr s True res])
        have ?D
          using q ne Inr s True res sub ok by blast
        then show ?thesis by blast
      qed
    qed
  qed
qed

theorem search_outcomes_witness:
  "search ((demoEnv JNull) \<lparr> env_apiKey := False \<rparr>) (Some ''hotels in goa'')
     = Status503 (Error ''OPENAI_API_KEY missing'')
   \<and> search (demoEnv JNull) (Some ''hotels in goa'') = Status503 TypeError
   \<and> search (demoEnv (JObj [(''hotel'', JNum 5)])) (Some ''hotels in goa'')
       = Status422 ''invalid filter generated'' [MustBeOfType ''hotel'' TString]
   \<and> search (demoEnv (JObj [(''state'', JStr ''Telangana''), (''minPtsNight'', JNum 30000)]))
        (Some ''hotels in telangana from 30000 points'')
       = Ok200 1 [mkHotel ''Sheraton'' ''Sheraton Hyderabad'' ''Hyderabad'' ''Telangana'' 40000 8]"
proof -
  let ?q = "''hotels in goa''"
  let ?e0 = "(demoEnv JNull) \<lparr> env_apiKey := False \<rparr>"
  let ?e1 = "demoEnv JNull"
  let ?raw = "JObj [(''state'', JStr ''Telangana''), (''minPtsNight'', JNum 30000)]"
  let ?e2 = "demoEnv ?raw"
  let ?q2 = "''hotels in telangana from 30000 points''"
  have k: "queryToFilter ?e0 ?q = Inl (Error ''OPENAI_API_KEY missing'')"
    using search_outcomes [of "Some ?q" ?e0 ?q] by simp
  have 1: "search ?e0 (Some ?q) = Status503 (Error ''OPENAI_API_KEY missing'')"
    using search_outcomes [of "Some ?q" ?e0] k by auto
  have n: "queryToFilter ?e1 ?q = Inl TypeError"
    by code_simp
  have 2: "search ?e1 (Some ?q) = Status503 TypeError"
    using search_outcomes [of "Some ?q" ?e1] n by auto
  let ?bad = "JObj [(''hotel'', JNum 5)]"
  have tb: "queryToFilter (demoEnv ?bad) ?q = Inr ?bad" by code_simp
  have nb: "\<not> wantsNearest ?q" by code_simp
  have vb: "\<not> validateFilter ?bad" by code_simp
  have eb: "validateFilter_errors ?bad = [MustBeOfType ''hotel'' TString]" by code_simp
  have 4: "search (demoEnv ?bad) (Some ?q)
             = Status422 ''invalid filter generated'' [MustBeOfType ''hotel'' TString]"
    using search_outcomes [of "Some ?q" "demoEnv ?bad"] tb nb vb eb by auto
  have t: "queryToFilter ?e2 ?q2 = Inr ?raw" by code_simp
  have near: "\<not> wantsNearest ?q2" by code_simp
  have v: "validateFilter ?raw" by code_simp
  have a: "applyFilter (env_toNumber ?e2) (env_records ?e2) ?raw
             = Inr [mkHotel ''Sheraton'' ''Sheraton Hyderabad'' ''Hyderabad'' ''Telangana'' 40000 8]"
    by code_simp
  have d: "nearestStage ?q2 (cheapestStage ?q2
             [mkHotel ''Sheraton'' ''Sheraton Hyderabad'' ''Hyderabad'' ''Telangana'' 40000 8])
           = [mkHotel ''Sheraton'' ''Sheraton Hyderabad'' ''Hyderabad'' ''Telangana'' 40000 8]"
    by code_simp
  have 3: "search ?e2 (Some ?q2)
             = Ok200 1 [mkHotel ''Sheraton'' ''Sheraton Hyderabad'' ''Hyderabad'' ''Telangana'' 40000 8]"
    using search_outcomes [of "Some ?q2" ?e2] t near v a d by auto
  from 1 2 3 4 show ?thesis by blast
qed

end
